theory Spec2Isabelle
  imports Main
begin

section \<open>Values, errors and the configuration document\<close>

text \<open>
  Both pipeline steps are Python scripts. An uncaught exception ends the script, so every
  operation that can raise returns \<open>error + 'a\<close>, with \<open>Inl\<close> for the exception.
\<close>

datatype error =
    TypeError
  | KeyError string
  | AttributeError
  | IndexError
  | FileExistsError
  | FileNotFoundError
  | NotADirectoryError
  | ValueError
  | CollaboratorError string

text \<open>
  \<open>yaml.full_load\<close> returns nested Python values. The scripts tell apart \<open>None\<close>, strings
  and dictionaries; sequences and the remaining scalars (a float or a timestamp, kept as
  its text) only matter because they have neither string keys nor a \<open>split\<close> method.
  Dictionary keys used by the scripts are strings. The document is read as a tree: two
  sections sharing one object through a YAML alias are outside the model.
\<close>

datatype yaml =
    YNull
  | YBool bool
  | YInt int
  | YStr string
  | YOther string
  | YSeq "yaml list"
  | YMap "string \<Rightarrow> yaml option"

text \<open>\<open>obj[key]\<close> with a string key: only a dictionary holding the key answers.\<close>

fun getitem :: "yaml \<Rightarrow> string \<Rightarrow> error + yaml" where
  "getitem (YMap m) k = (case m k of None \<Rightarrow> Inl (KeyError k) | Some v \<Rightarrow> Inr v)"
| "getitem _ k = Inl TypeError"

text \<open>\<open>obj[key] = value\<close> with a string key, returning the mutated object.\<close>

fun setitem :: "yaml \<Rightarrow> string \<Rightarrow> yaml \<Rightarrow> error + yaml" where
  "setitem (YMap m) k v = Inr (YMap (m(k \<mapsto> v)))"
| "setitem _ k v = Inl TypeError"

text \<open>
  \<open>s.split(sep)\<close> for a one-character separator: the pieces between the separators, empty
  pieces kept, so that the result is never empty (\<open>''.split('/') == ['']\<close>).
\<close>

fun str_split :: "string \<Rightarrow> char \<Rightarrow> string list" where
  "str_split [] c = [[]]"
| "str_split (x # xs) c =
     (if x = c then [] # str_split xs c
      else (case str_split xs c of
              [] \<Rightarrow> [[x]]
            | w # ws \<Rightarrow> (x # w) # ws))"

text \<open>The method call \<open>v.split('/')\<close> on a loaded value: only a string has the method.\<close>

fun split_method :: "yaml \<Rightarrow> error + string list" where
  "split_method (YStr s) = Inr (str_split s (CHR ''/''))"
| "split_method _ = Inl AttributeError"

text \<open>\<open>xs[-1]\<close>: the last element, \<open>IndexError\<close> on an empty list.\<close>

definition last_item :: "'a list \<Rightarrow> error + 'a" where
  "last_item xs = (if xs = [] then Inl IndexError else Inr (last xs))"

text \<open>Sequencing of fallible steps: the first exception ends the computation.\<close>

definition and_then :: "error + 'a \<Rightarrow> ('a \<Rightarrow> error + 'b) \<Rightarrow> error + 'b" where
  "and_then r f = (case r of Inl e \<Rightarrow> Inl e | Inr x \<Rightarrow> f x)"

section \<open>Rewriting the PATHS section\<close>

text \<open>
  One statement of the form
  \<^verbatim>\<open>cfg['PATHS'][K] = args.dir + '/' + cfg['PATHS'][K].split('/')[-1]\<close>
  An argument that was not given on the command line is \<open>None\<close>, and \<open>None + '/'\<close>
  raises before the configuration is read. The right-hand side is evaluated before the
  target \<open>cfg['PATHS']\<close> is looked up again for the store.
\<close>

definition rewrite_path :: "string option \<Rightarrow> string \<Rightarrow> yaml \<Rightarrow> error + yaml" where
  "rewrite_path dir key cfg =
     (case dir of
        None \<Rightarrow> Inl TypeError
      | Some d \<Rightarrow>
          and_then (getitem cfg ''PATHS'') (\<lambda>paths.
          and_then (getitem paths key) (\<lambda>v.
          and_then (split_method v) (\<lambda>segs.
          and_then (last_item segs) (\<lambda>seg.
          and_then (getitem cfg ''PATHS'') (\<lambda>target.
          and_then (setitem target key (YStr (d @ ''/'' @ seg))) (\<lambda>target'.
          setitem cfg ''PATHS'' target')))))))"

text \<open>A run of such statements, in program order.\<close>

fun rewrite_all :: "(string option \<times> string) list \<Rightarrow> yaml \<Rightarrow> error + yaml" where
  "rewrite_all [] cfg = Inr cfg"
| "rewrite_all ((dir, key) # rest) cfg =
     (case rewrite_path dir key cfg of
        Inl e \<Rightarrow> Inl e
      | Inr cfg' \<Rightarrow> rewrite_all rest cfg')"

text \<open>The command-line arguments of the two steps (\<open>argparse\<close>, \<open>type=str\<close>, no default).\<close>

record preprocess_args =
  rawdatadir :: "string option"
  preprocessedoutputdir :: "string option"

record train_args =
  preprocessedoutputdir :: "string option"
  traininglogsdir :: "string option"
  trainoutputdir :: "string option"

text \<open>
  The preprocessing step, lines 15 to 25 of \<open>preprocess_step.py\<close>: two entries move
  to the raw-data directory, nine to the preprocessed-output directory.
\<close>

definition preprocess_paths :: "preprocess_args \<Rightarrow> (string option \<times> string) list" where
  "preprocess_paths args =
     [(rawdatadir args, ''RAW_DATA''),
      (rawdatadir args, ''RAW_SPDAT_DATA''),
      (preprocess_args.preprocessedoutputdir args, ''PROCESSED_DATA''),
      (preprocess_args.preprocessedoutputdir args, ''PROCESSED_OHE_DATA''),
      (preprocess_args.preprocessedoutputdir args, ''TRAIN_SET''),
      (preprocess_args.preprocessedoutputdir args, ''TEST_SET''),
      (preprocess_args.preprocessedoutputdir args, ''GROUND_TRUTH''),
      (preprocess_args.preprocessedoutputdir args, ''DATA_INFO''),
      (preprocess_args.preprocessedoutputdir args, ''ORDINAL_COL_TRANSFORMER''),
      (preprocess_args.preprocessedoutputdir args, ''OHE_COL_TRANSFORMER_MV''),
      (preprocess_args.preprocessedoutputdir args, ''OHE_COL_TRANSFORMER_SV'')]"

definition preprocess_rewrite :: "preprocess_args \<Rightarrow> yaml \<Rightarrow> error + yaml" where
  "preprocess_rewrite args cfg = rewrite_all (preprocess_paths args) cfg"

text \<open>
  The training step, lines 23 to 30 of \<open>train_step.py\<close>: five entries move to the
  preprocessed-output directory, two to the training-output directory, and then
  \<^verbatim>\<open>cfg['PATHS']['LOGS'] = args.traininglogsdir\<close>
  stores the argument itself (\<open>None\<close> when it was not given).
\<close>

definition train_paths :: "train_args \<Rightarrow> (string option \<times> string) list" where
  "train_paths args =
     [(train_args.preprocessedoutputdir args, ''PROCESSED_DATA''),
      (train_args.preprocessedoutputdir args, ''PROCESSED_OHE_DATA''),
      (train_args.preprocessedoutputdir args, ''TRAIN_SET''),
      (train_args.preprocessedoutputdir args, ''TEST_SET''),
      (train_args.preprocessedoutputdir args, ''DATA_INFO''),
      (trainoutputdir args, ''SCALER_COL_TRANSFORMER''),
      (trainoutputdir args, ''MODEL_TO_LOAD'')]"

definition arg_value :: "string option \<Rightarrow> yaml" where
  "arg_value a = (case a of None \<Rightarrow> YNull | Some s \<Rightarrow> YStr s)"

definition set_logs :: "string option \<Rightarrow> yaml \<Rightarrow> error + yaml" where
  "set_logs dir cfg =
     and_then (getitem cfg ''PATHS'') (\<lambda>target.
     and_then (setitem target ''LOGS'' (arg_value dir)) (\<lambda>target'.
     setitem cfg ''PATHS'' target'))"

definition train_rewrite :: "train_args \<Rightarrow> yaml \<Rightarrow> error + yaml" where
  "train_rewrite args cfg =
     and_then (rewrite_all (train_paths args) cfg) (set_logs (traininglogsdir args))"

text \<open>Reading \<open>cfg['PATHS'][key]\<close> without raising: \<open>None\<close> when the lookup would fail.\<close>

definition path_entry :: "yaml \<Rightarrow> string \<Rightarrow> yaml option" where
  "path_entry cfg key =
     (case getitem cfg ''PATHS'' of
        Inl e \<Rightarrow> None
      | Inr paths \<Rightarrow> (case getitem paths key of Inl e \<Rightarrow> None | Inr v \<Rightarrow> Some v))"

text \<open>The same entry after a stage's rewrite, when the rewrite did not raise.\<close>

definition rewritten_entry :: "error + yaml \<Rightarrow> string \<Rightarrow> yaml option" where
  "rewritten_entry r key = (case r of Inl e \<Rightarrow> None | Inr cfg \<Rightarrow> path_entry cfg key)"

text \<open>The file name of a path: its last \<open>'/'\<close>-separated segment.\<close>

definition file_name :: "string \<Rightarrow> string" where
  "file_name s = last (str_split s (CHR ''/''))"

section \<open>The filesystem and directory provisioning\<close>

text \<open>
  The steps ask whether a path exists and create directories. A filesystem is a tree of
  directories and regular files, given as a map from the location of a node (the names
  from the root down to it) to its kind, together with the working directory of the
  process. The root, the empty location, is always a directory. Symbolic links,
  permissions and limits on the length of names are not part of this type.
\<close>

datatype node = File | Dir

type_synonym path = "string list"

record filesystem =
  nodes :: "path \<Rightarrow> node option"
  cwd :: path

definition node_at :: "filesystem \<Rightarrow> path \<Rightarrow> node option" where
  "node_at fs p = (if p = [] then Some Dir else nodes fs p)"


text \<open>
  Name resolution, one \<open>'/'\<close>-separated segment after the other. Looking anything up
  in the current node, also an empty segment or \<open>.\<close>, needs the current node to be a
  directory; \<open>..\<close> goes to the parent, and the parent of the root is the root.
\<close>

fun walk :: "filesystem \<Rightarrow> path \<Rightarrow> string list \<Rightarrow> error + path" where
  "walk fs cur [] = Inr cur"
| "walk fs cur (seg # rest) =
     (case node_at fs cur of
        None \<Rightarrow> Inl FileNotFoundError
      | Some File \<Rightarrow> Inl NotADirectoryError
      | Some Dir \<Rightarrow>
          if seg = [] \<or> seg = ''.'' then walk fs cur rest
          else if seg = ''..'' then walk fs (butlast cur) rest
          else (case nodes fs (cur @ [seg]) of
                  None \<Rightarrow> Inl FileNotFoundError
                | Some k \<Rightarrow> walk fs (cur @ [seg]) rest))"

text \<open>
  \<open>os.stat\<close>, as far as the steps need it: the location of the node a path string names,
  or the error. A path starting with \<open>'/'\<close> is resolved from the root, any other from
  the working directory. Python refuses a string with a NUL character.
\<close>

definition stat :: "filesystem \<Rightarrow> string \<Rightarrow> error + path" where
  "stat fs s =
     (if CHR 0x00 \<in> set s then Inl ValueError
      else if s = [] then Inl FileNotFoundError
      else walk fs (if hd s = CHR ''/'' then [] else cwd fs) (str_split s (CHR ''/'')))"

text \<open>\<open>os.path.exists\<close>: whether \<open>os.stat\<close> answers; its errors are caught.\<close>

definition os_path_exists :: "filesystem \<Rightarrow> string \<Rightarrow> bool" where
  "os_path_exists fs s = (case stat fs s of Inl e \<Rightarrow> False | Inr p \<Rightarrow> True)"

text \<open>
  \<open>posixpath.split\<close>: the tail is what follows the last \<open>'/'\<close>, the head what comes
  before it, with its trailing slashes removed unless it consists of slashes only.
\<close>

definition rstrip_slash :: "string \<Rightarrow> string" where
  "rstrip_slash s = rev (dropWhile (\<lambda>c. c = CHR ''/'') (rev s))"

definition path_split :: "string \<Rightarrow> string \<times> string" where
  "path_split p =
     (let tail = file_name p;
          head = take (length p - length tail) p
      in (if head \<noteq> [] \<and> head \<noteq> replicate (length head) (CHR ''/'')
          then rstrip_slash head else head,
          tail))"

text \<open>
  The first three lines of \<open>os.makedirs\<close>:
  \<^verbatim>\<open>head, tail = path.split(name)
  if not tail:
      head, tail = path.split(head)\<close>
\<close>

definition head_tail :: "string \<Rightarrow> string \<times> string" where
  "head_tail name =
     (case path_split name of (head, tail) \<Rightarrow> if tail = [] then path_split head else (head, tail))"

text \<open>
  \<open>os.mkdir\<close>. The operating system ignores trailing slashes, so the directory to make
  is the last component of \<open>head_tail\<close> and its parent is the head (the working directory
  when the head is empty). The parent must resolve to a directory; the component must be
  new, and \<open>.\<close> and \<open>..\<close> always exist there.
\<close>

definition mkdir :: "string \<Rightarrow> filesystem \<Rightarrow> error + filesystem" where
  "mkdir name fs =
     (if CHR 0x00 \<in> set name then Inl ValueError
      else if name = [] then Inl FileNotFoundError
      else (case head_tail name of (head, tail) \<Rightarrow>
        if tail = [] then Inl FileExistsError
        else (case (if head = [] then Inr (cwd fs) else stat fs head) of
                Inl e \<Rightarrow> Inl e
              | Inr p \<Rightarrow>
                  (case node_at fs p of
                     None \<Rightarrow> Inl FileNotFoundError
                   | Some File \<Rightarrow> Inl NotADirectoryError
                   | Some Dir \<Rightarrow>
                       if tail = ''.'' \<or> tail = ''..'' then Inl FileExistsError
                       else if nodes fs (p @ [tail]) \<noteq> None then Inl FileExistsError
                       else Inr (fs\<lparr>nodes := (nodes fs)(p @ [tail] \<mapsto> Dir)\<rparr>)))))"

text \<open>A statement that raises leaves the filesystem as it was when it raised.\<close>

definition mkdir_step :: "string \<Rightarrow> filesystem \<Rightarrow> (error + unit) \<times> filesystem" where
  "mkdir_step name fs = (case mkdir name fs of Inl e \<Rightarrow> (Inl e, fs) | Inr fs' \<Rightarrow> (Inr (), fs'))"

text \<open>
  \<open>os.makedirs(name)\<close> with \<open>exist_ok=False\<close>:
  \<^verbatim>\<open>if head and tail and not path.exists(head):
      try:
          makedirs(head, exist_ok=exist_ok)
      except FileExistsError:
          pass
      if tail == curdir:
          return
  mkdir(name, mode)\<close>
  What the inner call created stays when it raises.
\<close>

function makedirs :: "string \<Rightarrow> filesystem \<Rightarrow> (error + unit) \<times> filesystem" where
  "makedirs name fs =
     (if fst (head_tail name) \<noteq> [] \<and> snd (head_tail name) \<noteq> [] \<and>
         \<not> os_path_exists fs (fst (head_tail name)) then
        (case makedirs (fst (head_tail name)) fs of
           (Inl e, fs1) \<Rightarrow>
             if e = FileExistsError
             then (if snd (head_tail name) = ''.'' then (Inr (), fs1) else mkdir_step name fs1)
             else (Inl e, fs1)
         | (Inr u, fs1) \<Rightarrow>
             if snd (head_tail name) = ''.'' then (Inr (), fs1) else mkdir_step name fs1)
      else mkdir_step name fs)"
  by pat_completeness auto
termination
proof (relation "measure (\<lambda>(name, fs). length name)")
  show "wf (measure (\<lambda>(name, fs). length name))" by simp
next
  fix name :: string and fs :: filesystem
  assume a: "fst (head_tail name) \<noteq> [] \<and> snd (head_tail name) \<noteq> [] \<and>
    \<not> os_path_exists fs (fst (head_tail name))"
  have nonempty: "\<And>s c. str_split s c \<noteq> []"
  proof -
    fix s :: string and c show "str_split s c \<noteq> []"
      by (induction s) (auto split: list.splits)
  qed
  have tail_len: "\<And>s. length (file_name s) \<le> length s"
  proof -
    fix s :: string
    have "length (last (str_split s (CHR ''/''))) \<le> length s"
      by (induction s) (auto split: list.splits simp: nonempty)
    then show "length (file_name s) \<le> length s" by (simp add: file_name_def)
  qed
  have strip_len: "\<And>s. length (rstrip_slash s) \<le> length s"
  proof -
    fix s :: string
    have "length (dropWhile (\<lambda>c. c = CHR ''/'') (rev s)) \<le> length (rev s)"
      by (rule length_dropWhile_le)
    then show "length (rstrip_slash s) \<le> length s" by (simp add: rstrip_slash_def)
  qed
  have split_len: "\<And>p. length (fst (path_split p)) + length (snd (path_split p)) \<le> length p"
  proof -
    fix p :: string
    have "length (fst (path_split p)) \<le> length p - length (file_name p)"
      using strip_len [of "take (length p - length (file_name p)) p"]
      by (simp add: path_split_def Let_def)
    moreover have "snd (path_split p) = file_name p" by (simp add: path_split_def Let_def)
    ultimately show "length (fst (path_split p)) + length (snd (path_split p)) \<le> length p"
      using tail_len [of p] by simp
  qed
  have "length (fst (head_tail name)) < length name"
  proof (cases "snd (path_split name) = []")
    case True
    then have ht: "head_tail name = path_split (fst (path_split name))"
      by (cases "path_split name") (simp add: head_tail_def)
    have "length (fst (head_tail name)) + length (snd (head_tail name))
        \<le> length (fst (path_split name))"
      unfolding ht by (rule split_len)
    moreover have "length (fst (path_split name)) \<le> length name"
      using split_len [of name] by simp
    moreover have "0 < length (snd (head_tail name))" using a by simp
    ultimately show ?thesis by arith
  next
    case False
    then have ht: "head_tail name = path_split name"
      by (cases "path_split name") (simp add: head_tail_def)
    have "length (fst (path_split name)) + length (snd (path_split name)) \<le> length name"
      by (rule split_len)
    moreover have "0 < length (snd (path_split name))" using False by simp
    ultimately show ?thesis unfolding ht by arith
  qed
  then show "((fst (head_tail name), fs), name, fs) \<in> measure (\<lambda>(name, fs). length name)"
    by simp
qed

declare makedirs.simps [simp del]

text \<open>
  Directory provisioning, the same two lines in both steps:
  \<^verbatim>\<open>if not os.path.exists(dir): os.makedirs(dir)\<close>
  \<open>os.path.exists(None)\<close> raises \<open>TypeError\<close>.
\<close>

definition provision :: "string option \<Rightarrow> filesystem \<Rightarrow> (error + unit) \<times> filesystem" where
  "provision dir fs =
     (case dir of
        None \<Rightarrow> (Inl TypeError, fs)
      | Some d \<Rightarrow> if \<not> os_path_exists fs d then makedirs d fs else (Inr (), fs))"



text \<open>
  For a path without \<open>..\<close> the node it names, if any, is at the start directory followed
  by its segments other than the empty ones and \<open>.\<close>.
\<close>

definition start_dir :: "filesystem \<Rightarrow> string \<Rightarrow> path" where
  "start_dir fs s = (if s \<noteq> [] \<and> hd s = CHR ''/'' then [] else cwd fs)"

definition plain_names :: "string \<Rightarrow> path" where
  "plain_names s = filter (\<lambda>seg. seg \<noteq> [] \<and> seg \<noteq> ''.'') (str_split s (CHR ''/''))"

definition target :: "filesystem \<Rightarrow> string \<Rightarrow> path" where
  "target fs s = start_dir fs s @ plain_names s"

section \<open>The tracking sink and the metrics-logging callback\<close>

text \<open>
  What a step does to the outside is kept in a record: the filesystem nodes it creates,
  the calls \<open>run.log(name, value)\<close> and \<open>run.log_image(name, plot=...)\<close> received by
  the tracking sink, in order, and the calls \<open>save_model(model, filepath)\<close> received by
  the persistence sink. The sinks only record.
\<close>

datatype ('v, 'p) logged = Scalar string 'v | Image string 'p

record ('v, 'p, 'm) world =
  files :: filesystem
  run_log :: "('v, 'p) logged list"
  saved_models :: "('m \<times> yaml) list"

definition run_log_scalar :: "string \<Rightarrow> 'v \<Rightarrow> ('v, 'p, 'm) world \<Rightarrow> ('v, 'p, 'm) world" where
  "run_log_scalar name val w = w\<lparr>run_log := run_log w @ [Scalar name val]\<rparr>"

definition run_log_image :: "string \<Rightarrow> 'p \<Rightarrow> ('v, 'p, 'm) world \<Rightarrow> ('v, 'p, 'm) world" where
  "run_log_image name plt w = w\<lparr>run_log := run_log w @ [Image name plt]\<rparr>"

definition save_model :: "'m \<Rightarrow> yaml \<Rightarrow> ('v, 'p, 'm) world \<Rightarrow> ('v, 'p, 'm) world" where
  "save_model model filepath w = w\<lparr>saved_models := saved_models w @ [(model, filepath)]\<rparr>"

text \<open>\<open>str(n)\<close> for a Python integer: decimal digits, a minus sign when negative.\<close>

function str_nat :: "nat \<Rightarrow> string" where
  "str_nat n =
     (if n < 10 then [''0123456789'' ! n]
      else str_nat (n div 10) @ [''0123456789'' ! (n mod 10)])"
  by pat_completeness auto
termination
  by (relation "measure (\<lambda>n. n)") auto

declare str_nat.simps [simp del]

definition str_int :: "int \<Rightarrow> string" where
  "str_int i = (if i < 0 then CHR ''-'' # str_nat (nat (- i)) else str_nat (nat i))"

text \<open>
  The callback object of \<open>train_step.py\<close>, lines 40 to 48. Its only field is the
  counter, set to 0 by \<open>__init__\<close>. An epoch log is a dictionary; the loop visits its
  keys in insertion order and reads the value of each, so the log is the list of its
  (name, value) items.
\<close>

record LogRunMetrics =
  model_counter :: int

definition LogRunMetrics_init :: LogRunMetrics where
  "LogRunMetrics_init = \<lparr>model_counter = 0\<rparr>"

definition on_epoch_end ::
  "LogRunMetrics \<Rightarrow> int \<Rightarrow> (string \<times> 'v) list \<Rightarrow> ('v, 'p, 'm) world \<Rightarrow>
     LogRunMetrics \<times> ('v, 'p, 'm) world" where
  "on_epoch_end self epoch log w =
     (let self' = (if epoch = 1 then self\<lparr>model_counter := model_counter self + 1\<rparr> else self)
      in (self',
          fold (\<lambda>(metric_name, val).
                  run_log_scalar
                    (''model'' @ str_int (model_counter self') @ ''_'' @ metric_name) val)
               log w))"

text \<open>The calls a training run makes to the callback, one after the other.\<close>

fun epoch_ends ::
  "LogRunMetrics \<Rightarrow> (int \<times> (string \<times> 'v) list) list \<Rightarrow> ('v, 'p, 'm) world \<Rightarrow>
     LogRunMetrics \<times> ('v, 'p, 'm) world" where
  "epoch_ends self [] w = (self, w)"
| "epoch_ends self ((epoch, log) # calls) w =
     (case on_epoch_end self epoch log w of (self', w') \<Rightarrow> epoch_ends self' calls w')"

section \<open>The two step scripts\<close>

text \<open>
  A script is a sequence of statements acting on the outside world; an exception ends it
  and leaves the world as it was at that point.
\<close>

type_synonym ('x, 'w) prog = "'w \<Rightarrow> (error + 'x) \<times> 'w"

definition seq :: "('x, 'w) prog \<Rightarrow> ('x \<Rightarrow> ('y, 'w) prog) \<Rightarrow> ('y, 'w) prog" where
  "seq m f = (\<lambda>w. case m w of (Inl e, w') \<Rightarrow> (Inl e, w') | (Inr x, w') \<Rightarrow> f x w')"

definition pure_step :: "error + 'x \<Rightarrow> ('x, 'w) prog" where
  "pure_step r = (\<lambda>w. (r, w))"

definition effect :: "('w \<Rightarrow> 'w) \<Rightarrow> (unit, 'w) prog" where
  "effect g = (\<lambda>w. (Inr (), g w))"

definition provision_step :: "string option \<Rightarrow> (unit, ('v, 'p, 'm) world) prog" where
  "provision_step dir =
     (\<lambda>w. case provision dir (files w) of (r, fs) \<Rightarrow> (r, w\<lparr>files := fs\<rparr>))"

text \<open>
  The library functions the training step calls are not part of these two files. They
  are parameters of the model: each returns its result or raises. They read the
  configuration and do not change it. \<open>multi_train\<close> is given the configuration, the
  dataset, the patience of the early-stopping callback and the base log directory; it
  answers with the \<open>on_epoch_end\<close> calls it makes to the callbacks during training,
  followed by the best model, its test metrics and the log identifier, or an exception.
  Arrays are of type \<open>'a\<close>, metric values of type \<open>'v\<close>, plots \<open>'p\<close>, models \<open>'m\<close>.
\<close>

record ('v, 'p, 'm, 'a) collaborators =
  load_dataset :: "yaml \<Rightarrow> error + (string \<Rightarrow> 'a option)"
  multi_train ::
    "yaml \<Rightarrow> (string \<Rightarrow> 'a option) \<Rightarrow> yaml \<Rightarrow> yaml \<Rightarrow>
       (int \<times> (string \<times> 'v) list) list \<times> (error + 'm \<times> (string \<times> 'v) list \<times> 'v)"
  predict :: "'m \<Rightarrow> 'a \<Rightarrow> yaml \<Rightarrow> error + 'a"
  plot_roc :: "string \<Rightarrow> 'a \<Rightarrow> 'a \<Rightarrow> error + 'p"
  plot_confusion_matrix :: "'a \<Rightarrow> 'a \<Rightarrow> error + 'p"

definition data_item :: "(string \<Rightarrow> 'a option) \<Rightarrow> string \<Rightarrow> error + 'a" where
  "data_item data k = (case data k of None \<Rightarrow> Inl (KeyError k) | Some x \<Rightarrow> Inr x)"

definition cfg_item :: "yaml \<Rightarrow> string \<Rightarrow> string \<Rightarrow> error + yaml" where
  "cfg_item cfg section key = and_then (getitem cfg section) (\<lambda>sec. getitem sec key)"

text \<open>
  Line 56: the training run. The callback object is created on line 52 and receives every
  \<open>on_epoch_end\<close> call of the run before \<open>multi_train\<close> returns or raises.
\<close>

definition training ::
  "('v, 'p, 'm, 'a) collaborators \<Rightarrow> yaml \<Rightarrow> (string \<Rightarrow> 'a option) \<Rightarrow> yaml \<Rightarrow> yaml \<Rightarrow>
     ('m \<times> (string \<times> 'v) list \<times> 'v, ('v, 'p, 'm) world) prog" where
  "training ext cfg data patience base_log_dir =
     (\<lambda>w. case multi_train ext cfg data patience base_log_dir of
             (calls, outcome) \<Rightarrow> (outcome, snd (epoch_ends LogRunMetrics_init calls w)))"

text \<open>Lines 62 and 63: every test metric goes to the tracking sink.\<close>

definition log_test_metrics :: "(string \<times> 'v) list \<Rightarrow> ('v, 'p, 'm) world \<Rightarrow> ('v, 'p, 'm) world" where
  "log_test_metrics test_metrics w =
     fold (\<lambda>(metric_name, val). run_log_scalar (''test_'' @ metric_name) val) test_metrics w"

text \<open>
  Lines 33 to 67 of \<open>train_step.py\<close>, on the rewritten configuration: provisioning,
  loading, training and the reports. Printing to the console is left out.
\<close>

definition train_and_report ::
  "('v, 'p, 'm, 'a) collaborators \<Rightarrow> train_args \<Rightarrow> yaml \<Rightarrow> ('m, ('v, 'p, 'm) world) prog" where
  "train_and_report ext args cfg =
     seq (provision_step (trainoutputdir args)) (\<lambda>_.
     seq (pure_step (load_dataset ext cfg)) (\<lambda>data.
     seq (pure_step (cfg_item cfg ''TRAIN'' ''PATIENCE'')) (\<lambda>patience.
     seq (pure_step (cfg_item cfg ''PATHS'' ''LOGS'')) (\<lambda>base_log_dir.
     seq (training ext cfg data patience base_log_dir) (\<lambda>(model, test_metrics, best_logs_date).
     seq (effect (run_log_scalar ''TensorBoard logs folder'' best_logs_date)) (\<lambda>_.
     seq (pure_step (data_item data ''X_test'')) (\<lambda>x_test.
     seq (pure_step (cfg_item cfg ''TRAIN'' ''BATCH_SIZE'')) (\<lambda>batch_size.
     seq (pure_step (predict ext model x_test batch_size)) (\<lambda>test_predictions.
     seq (effect (log_test_metrics test_metrics)) (\<lambda>_.
     seq (pure_step (data_item data ''Y_test'')) (\<lambda>y_test.
     seq (pure_step (plot_roc ext ''Test set'' y_test test_predictions)) (\<lambda>roc_plt.
     seq (effect (run_log_image ''ROC'' roc_plt)) (\<lambda>_.
     seq (pure_step (data_item data ''Y_test'')) (\<lambda>y_test'.
     seq (pure_step (plot_confusion_matrix ext y_test' test_predictions)) (\<lambda>cm_plt.
     seq (effect (run_log_image ''Confusion matrix'' cm_plt)) (\<lambda>_.
     pure_step (Inr model)))))))))))))))))"

text \<open>
  Lines 70 and 71:
  \<^verbatim>\<open>if cfg['PATHS']['MODEL_WEIGHTS'] is not None:
      save_model(model, cfg['PATHS']['MODEL_TO_LOAD'])\<close>
\<close>

definition save_weights :: "yaml \<Rightarrow> 'm \<Rightarrow> (unit, ('v, 'p, 'm) world) prog" where
  "save_weights cfg model =
     seq (pure_step (cfg_item cfg ''PATHS'' ''MODEL_WEIGHTS'')) (\<lambda>weights.
       if weights \<noteq> YNull then
         seq (pure_step (cfg_item cfg ''PATHS'' ''MODEL_TO_LOAD'')) (\<lambda>filepath.
           effect (save_model model filepath))
       else pure_step (Inr ()))"

text \<open>
  The training step, from the loaded configuration to the end of the script. The
  configuration \<open>cfg0\<close> is the document \<open>yaml.full_load\<close> returned on line 22;
  finding and reading the file is not part of the model.
\<close>

definition train_step ::
  "('v, 'p, 'm, 'a) collaborators \<Rightarrow> train_args \<Rightarrow> yaml \<Rightarrow> (unit, ('v, 'p, 'm) world) prog" where
  "train_step ext args cfg0 =
     seq (pure_step (train_rewrite args cfg0)) (\<lambda>cfg.
     seq (train_and_report ext args cfg) (\<lambda>model.
     save_weights cfg model))"

text \<open>
  The preprocessing step, from the loaded configuration to the end of the script. The
  library function \<open>preprocess\<close> is a parameter; it is called once, with the rewritten
  configuration and the fixed flags of lines 32 and 33, and may write files.
\<close>

definition preprocess_step ::
  "(yaml \<Rightarrow> int option \<Rightarrow> bool \<Rightarrow> bool \<Rightarrow> bool \<Rightarrow> bool \<Rightarrow> ('r, filesystem) prog) \<Rightarrow>
     preprocess_args \<Rightarrow> yaml \<Rightarrow> ('r, filesystem) prog" where
  "preprocess_step preprocess args cfg0 =
     seq (pure_step (preprocess_rewrite args cfg0)) (\<lambda>cfg.
     seq (provision (preprocess_args.preprocessedoutputdir args)) (\<lambda>_.
     preprocess cfg None True True True False))"

section \<open>A configuration to run the steps on\<close>

definition example_paths :: "(string \<times> yaml) list" where
  "example_paths =
     [(''RAW_DATA'', YStr ''data/raw/HIFIS_Clients.csv''),
      (''RAW_SPDAT_DATA'', YStr ''data/raw/SPDATS.json''),
      (''PROCESSED_DATA'', YStr ''./data/preprocessed/processed.parquet''),
      (''PROCESSED_OHE_DATA'', YStr ''data/preprocessed/processed_ohe.csv''),
      (''TRAIN_SET'', YStr ''data/preprocessed/train.csv''),
      (''TEST_SET'', YStr ''data/preprocessed/test.csv''),
      (''GROUND_TRUTH'', YStr ''data/preprocessed/gt.csv''),
      (''DATA_INFO'', YStr ''data_info.yml''),
      (''ORDINAL_COL_TRANSFORMER'', YStr ''data/transformers/ordinal.bin''),
      (''OHE_COL_TRANSFORMER_MV'', YStr ''data/transformers/ohe_mv.bin''),
      (''OHE_COL_TRANSFORMER_SV'', YStr ''data/transformers/ohe_sv.bin''),
      (''SCALER_COL_TRANSFORMER'', YStr ''data/transformers/scaler.bin''),
      (''MODEL_TO_LOAD'', YStr ''results/models/model.h5''),
      (''MODEL_WEIGHTS'', YStr ''results/models/''),
      (''LOGS'', YStr ''results/logs/training'')]"

definition example_cfg :: yaml where
  "example_cfg =
     YMap (map_of
       [(''PATHS'', YMap (map_of example_paths)),
        (''TRAIN'', YMap (map_of [(''PATIENCE'', YInt 15), (''BATCH_SIZE'', YInt 1024)]))])"

text \<open>The same configuration with \<open>MODEL_WEIGHTS: null\<close>.\<close>

definition null_weights_cfg :: yaml where
  "null_weights_cfg =
     YMap (map_of
       [(''PATHS'', YMap ((map_of example_paths)(''MODEL_WEIGHTS'' \<mapsto> YNull))),
        (''TRAIN'', YMap (map_of [(''PATIENCE'', YInt 15), (''BATCH_SIZE'', YInt 1024)]))])"

definition example_preprocess_args :: preprocess_args where
  "example_preprocess_args =
     \<lparr>rawdatadir = Some ''/mnt/raw'',
      preprocess_args.preprocessedoutputdir = Some ''/mnt/output''\<rparr>"

definition example_train_args :: train_args where
  "example_train_args =
     \<lparr>train_args.preprocessedoutputdir = Some ''/mnt/output'',
      traininglogsdir = Some ''/mnt/logs'',
      trainoutputdir = Some ''/mnt/train''\<rparr>"

text \<open>
  Three filesystems, all with the root as working directory: an empty one, one where
  \<open>/mnt/out\<close> is a regular file, and one where \<open>/f\<close> is a regular file.
\<close>

definition empty_fs :: filesystem where
  "empty_fs = \<lparr>nodes = Map.empty, cwd = []\<rparr>"

definition file_fs :: filesystem where
  "file_fs = \<lparr>nodes = Map.empty([''mnt''] \<mapsto> Dir, [''mnt'', ''out''] \<mapsto> File), cwd = []\<rparr>"


text \<open>
  Collaborators for one small run: a dataset with the two test arrays, a training run of
  one model reporting epochs 0 and 1, and plots. Metric values and models are numbers.
\<close>

definition example_ext :: "(nat, unit, nat, unit) collaborators" where
  "example_ext =
     \<lparr>load_dataset = (\<lambda>cfg. Inr [''X_test'' \<mapsto> (), ''Y_test'' \<mapsto> ()]),
      multi_train = (\<lambda>cfg data patience base_log_dir.
        ([(0, [(''loss'', 5)]), (1, [(''loss'', 4)])], Inr (7, [(''loss'', 4)], 0))),
      predict = (\<lambda>model x batch_size. Inr ()),
      plot_roc = (\<lambda>title y_true y_pred. Inr ()),
      plot_confusion_matrix = (\<lambda>y_true y_pred. Inr ())\<rparr>"

definition example_world :: "(nat, unit, nat) world" where
  "example_world = \<lparr>files = empty_fs, run_log = [], saved_models = []\<rparr>"

section \<open>Splitting a string at a separator\<close>

lemma str_split_nonempty: "str_split s c \<noteq> []"
  by (induction s) (auto split: list.splits)

lemma last_split_notin: "c \<notin> set (last (str_split s c))"
  by (induction s) (auto split: list.splits simp: str_split_nonempty)

lemma str_split_no_sep: "c \<notin> set s \<Longrightarrow> str_split s c = [s]"
  by (induction s) (auto split: list.splits)

lemma str_split_two: "c \<in> set s \<Longrightarrow> \<exists>w w' ws. str_split s c = w # w' # ws"
proof (induction s)
  case Nil then show ?case by simp
next
  case (Cons x xs)
  show ?case
  proof (cases "x = c")
    case True
    then show ?thesis using str_split_nonempty [of xs c] by (cases "str_split xs c") auto
  next
    case False
    then have "c \<in> set xs" using Cons.prems by simp
    then obtain w w' ws where "str_split xs c = w # w' # ws" using Cons.IH by blast
    then show ?thesis using False by simp
  qed
qed

lemma last_split_Cons:
  "last (str_split (x # xs) c) = (if x = c \<or> c \<in> set xs then last (str_split xs c) else x # xs)"
proof (cases "x = c")
  case True
  then show ?thesis by (simp add: str_split_nonempty)
next
  case False
  show ?thesis
  proof (cases "c \<in> set xs")
    case True
    then obtain w w' ws where "str_split xs c = w # w' # ws" using str_split_two by blast
    then show ?thesis using False True by simp
  next
    case False
    then show ?thesis using \<open>x \<noteq> c\<close> by (simp add: str_split_no_sep)
  qed
qed

lemma last_split_append: "last (str_split (p @ c # s) c) = last (str_split s c)"
proof (induction p)
  case Nil show ?case by (simp add: str_split_nonempty)
next
  case (Cons a p)
  have "c \<in> set (p @ c # s)" by simp
  then show ?case using Cons by (simp only: append_Cons last_split_Cons) simp
qed

lemma split_decompose:
  "\<exists>pre. s = pre @ last (str_split s c) \<and> (pre = [] \<or> last pre = c)"
proof (induction s)
  case Nil show ?case by simp
next
  case (Cons x xs)
  then obtain pre where p: "xs = pre @ last (str_split xs c)" "pre = [] \<or> last pre = c" by blast
  show ?case
  proof (cases "x = c \<or> c \<in> set xs")
    case True
    then have l: "last (str_split (x # xs) c) = last (str_split xs c)"
      by (simp only: last_split_Cons if_True)
    have "pre = [] \<Longrightarrow> x = c"
    proof -
      assume e: "pre = []"
      then have "xs = last (str_split xs c)" using p by simp
      then have "c \<notin> set xs" using last_split_notin [of c xs] by simp
      then show "x = c" using True by simp
    qed
    then have "last (x # pre) = c" using p(2) by auto
    moreover have "x # xs = (x # pre) @ last (str_split (x # xs) c)" using p(1) l by simp
    ultimately show ?thesis by blast
  next
    case False
    then have "last (str_split (x # xs) c) = x # xs" by (simp only: last_split_Cons if_False)
    then have "x # xs = [] @ last (str_split (x # xs) c)" by simp
    then show ?thesis by blast
  qed
qed

section \<open>One rewriting statement and a run of them\<close>

lemma file_name_no_sep: "CHR ''/'' \<notin> set (file_name s)"
  by (simp add: file_name_def last_split_notin)

lemma file_name_join: "file_name (d @ ''/'' @ s) = file_name s"
  using last_split_append [of d "CHR ''/''" s] by (simp add: file_name_def)

lemma file_name_plain: "CHR ''/'' \<notin> set s \<Longrightarrow> file_name s = s"
  by (simp add: file_name_def str_split_no_sep)

lemma path_entry_iff:
  "path_entry cfg key = Some v \<longleftrightarrow>
     (\<exists>doc pm. cfg = YMap doc \<and> doc ''PATHS'' = Some (YMap pm) \<and> pm key = Some v)"
proof (cases cfg)
  case (YMap doc)
  show ?thesis
  proof (cases "doc ''PATHS''")
    case None
    then show ?thesis using YMap by (simp add: path_entry_def)
  next
    case (Some p)
    then show ?thesis using YMap
      by (cases p) (auto simp: path_entry_def split: option.splits)
  qed
qed (simp_all add: path_entry_def)

lemma rewrite_path_str:
  assumes "doc ''PATHS'' = Some (YMap pm)" and "pm key = Some (YStr v)"
  shows "rewrite_path (Some d) key (YMap doc) =
           Inr (YMap (doc(''PATHS'' \<mapsto> YMap (pm(key \<mapsto> YStr (d @ ''/'' @ file_name v))))))"
  using assms
  by (simp add: rewrite_path_def and_then_def last_item_def file_name_def str_split_nonempty)

lemma rewrite_path_Inr_D:
  assumes "rewrite_path dir key cfg = Inr cfg'"
  shows "\<exists>d doc pm v. dir = Some d \<and> cfg = YMap doc \<and> doc ''PATHS'' = Some (YMap pm) \<and>
        pm key = Some (YStr v) \<and>
        cfg' = YMap (doc(''PATHS'' \<mapsto> YMap (pm(key \<mapsto> YStr (d @ ''/'' @ file_name v)))))"
proof -
  obtain d where d: "dir = Some d"
    using assms by (cases dir) (simp_all add: rewrite_path_def)
  obtain doc where doc: "cfg = YMap doc"
    using assms d by (cases cfg) (simp_all add: rewrite_path_def and_then_def)
  obtain p where p: "doc ''PATHS'' = Some p"
    using assms d doc by (cases "doc ''PATHS''") (simp_all add: rewrite_path_def and_then_def)
  obtain pm where pm: "p = YMap pm"
    using assms d doc p by (cases p) (simp_all add: rewrite_path_def and_then_def)
  obtain x where x: "pm key = Some x"
    using assms d doc p pm by (cases "pm key") (simp_all add: rewrite_path_def and_then_def)
  obtain v where v: "x = YStr v"
    using assms d doc p pm x by (cases x) (simp_all add: rewrite_path_def and_then_def)
  have "doc ''PATHS'' = Some (YMap pm)" "pm key = Some (YStr v)"
    using p pm x v by simp_all
  then have "rewrite_path (Some d) key (YMap doc) =
           Inr (YMap (doc(''PATHS'' \<mapsto> YMap (pm(key \<mapsto> YStr (d @ ''/'' @ file_name v))))))"
    by (rule rewrite_path_str)
  with assms d doc
  have "cfg' = YMap (doc(''PATHS'' \<mapsto> YMap (pm(key \<mapsto> YStr (d @ ''/'' @ file_name v)))))"
    by simp
  then show ?thesis using d doc p pm x v by blast
qed

lemma rewrite_path_Inr:
  "rewrite_path dir key cfg = Inr cfg' \<longleftrightarrow>
     (\<exists>d doc pm v. dir = Some d \<and> cfg = YMap doc \<and> doc ''PATHS'' = Some (YMap pm) \<and>
        pm key = Some (YStr v) \<and>
        cfg' = YMap (doc(''PATHS'' \<mapsto> YMap (pm(key \<mapsto> YStr (d @ ''/'' @ file_name v))))))"
  using rewrite_path_Inr_D rewrite_path_str by blast

lemma rewrite_path_entry:
  assumes "rewrite_path dir key cfg = Inr cfg'"
  shows "\<exists>d v. dir = Some d \<and> path_entry cfg key = Some (YStr v) \<and>
           path_entry cfg' key = Some (YStr (d @ ''/'' @ file_name v))"
  using assms unfolding rewrite_path_Inr by (auto simp: path_entry_def)

lemma rewrite_path_other:
  assumes "rewrite_path dir key cfg = Inr cfg'" and "k \<noteq> key"
  shows "path_entry cfg' k = path_entry cfg k"
  using assms unfolding rewrite_path_Inr by (auto simp: path_entry_def)

lemma rewrite_path_section:
  assumes "rewrite_path dir key cfg = Inr cfg'" and "s \<noteq> ''PATHS''"
  shows "getitem cfg' s = getitem cfg s"
  using assms unfolding rewrite_path_Inr by auto

lemma rewrite_path_fixed:
  assumes "path_entry cfg key = Some (YStr (d @ ''/'' @ f))" and "CHR ''/'' \<notin> set f"
  shows "rewrite_path (Some d) key cfg = Inr cfg"
proof -
  obtain doc pm where c: "cfg = YMap doc" "doc ''PATHS'' = Some (YMap pm)"
    "pm key = Some (YStr (d @ ''/'' @ f))"
    using assms(1) unfolding path_entry_iff by blast
  have fn: "file_name (d @ ''/'' @ f) = f"
    using file_name_plain [OF assms(2)] by (simp only: file_name_join)
  have "pm(key \<mapsto> YStr (d @ ''/'' @ f)) = pm"
    using c(3) by (rule fun_upd_idem)
  moreover have "doc(''PATHS'' \<mapsto> YMap pm) = doc"
    using c(2) by (rule fun_upd_idem)
  moreover have "rewrite_path (Some d) key (YMap doc) =
      Inr (YMap (doc(''PATHS'' \<mapsto> YMap (pm(key \<mapsto> YStr (d @ ''/'' @ file_name (d @ ''/'' @ f)))))))"
    using c(2,3) by (rule rewrite_path_str)
  ultimately show ?thesis using c(1) fn by simp
qed

lemma rewrite_path_ok:
  assumes "path_entry cfg key = Some (YStr v)"
  shows "\<exists>cfg'. rewrite_path (Some d) key cfg = Inr cfg'"
proof -
  obtain doc pm where "cfg = YMap doc" "doc ''PATHS'' = Some (YMap pm)" "pm key = Some (YStr v)"
    using assms unfolding path_entry_iff by blast
  then show ?thesis using rewrite_path_str [of doc pm key v d] by simp
qed

lemma rewrite_all_other:
  "rewrite_all ps cfg = Inr cfg' \<Longrightarrow> k \<notin> snd ` set ps \<Longrightarrow> path_entry cfg' k = path_entry cfg k"
proof (induction ps arbitrary: cfg)
  case Nil
  then show ?case by simp
next
  case (Cons p ps)
  obtain d key where p: "p = (d, key)" by (cases p)
  from Cons.prems(1) obtain c1 where c1: "rewrite_path d key cfg = Inr c1" "rewrite_all ps c1 = Inr cfg'"
    unfolding p by (auto split: sum.splits)
  have "path_entry cfg' k = path_entry c1 k" using Cons.IH [OF c1(2)] Cons.prems(2) by simp
  moreover have "path_entry c1 k = path_entry cfg k"
    using rewrite_path_other [OF c1(1)] Cons.prems(2) p by auto
  ultimately show ?case by simp
qed

lemma rewrite_all_section:
  "rewrite_all ps cfg = Inr cfg' \<Longrightarrow> s \<noteq> ''PATHS'' \<Longrightarrow> getitem cfg' s = getitem cfg s"
proof (induction ps arbitrary: cfg)
  case Nil
  then show ?case by simp
next
  case (Cons p ps)
  obtain d key where p: "p = (d, key)" by (cases p)
  from Cons.prems(1) obtain c1 where c1: "rewrite_path d key cfg = Inr c1" "rewrite_all ps c1 = Inr cfg'"
    unfolding p by (auto split: sum.splits)
  show ?case using Cons.IH [OF c1(2) Cons.prems(2)] rewrite_path_section [OF c1(1) Cons.prems(2)]
    by simp
qed

lemma rewrite_all_entry:
  "rewrite_all ps cfg = Inr cfg' \<Longrightarrow> distinct (map snd ps) \<Longrightarrow> (dir, key) \<in> set ps \<Longrightarrow>
     \<exists>d v. dir = Some d \<and> path_entry cfg key = Some (YStr v) \<and>
       path_entry cfg' key = Some (YStr (d @ ''/'' @ file_name v))"
proof (induction ps arbitrary: cfg)
  case Nil
  then show ?case by simp
next
  case (Cons p ps)
  obtain d0 k0 where p: "p = (d0, k0)" by (cases p)
  from Cons.prems(1) obtain c1 where c1: "rewrite_path d0 k0 cfg = Inr c1" "rewrite_all ps c1 = Inr cfg'"
    unfolding p by (auto split: sum.splits)
  have dist: "k0 \<notin> snd ` set ps" "distinct (map snd ps)" using Cons.prems(2) p by auto
  show ?case
  proof (cases "(dir, key) = (d0, k0)")
    case True
    have "path_entry cfg' key = path_entry c1 key"
      using rewrite_all_other [OF c1(2)] dist(1) True by simp
    then show ?thesis using rewrite_path_entry [OF c1(1)] True by auto
  next
    case False
    then have mem: "(dir, key) \<in> set ps" using Cons.prems(3) p by auto
    then have "key \<noteq> k0" using dist(1) by force
    then have "path_entry c1 key = path_entry cfg key" using rewrite_path_other [OF c1(1)] by simp
    then show ?thesis using Cons.IH [OF c1(2) dist(2) mem] by simp
  qed
qed

lemma rewrite_all_fixed:
  "(\<And>dir key. (dir, key) \<in> set ps \<Longrightarrow> rewrite_path dir key cfg = Inr cfg) \<Longrightarrow>
     rewrite_all ps cfg = Inr cfg"
  by (induction ps) auto

lemma rewrite_all_ok:
  "(\<And>dir key. (dir, key) \<in> set ps \<Longrightarrow> dir \<noteq> None \<and> (\<exists>v. path_entry cfg key = Some (YStr v))) \<Longrightarrow>
     \<exists>cfg'. rewrite_all ps cfg = Inr cfg'"
proof (induction ps arbitrary: cfg)
  case Nil
  then show ?case by simp
next
  case (Cons p ps)
  obtain d0 k0 where p: "p = (d0, k0)" by (cases p)
  obtain d v where d: "d0 = Some d" "path_entry cfg k0 = Some (YStr v)"
    using Cons.prems [of d0 k0] p by auto
  obtain c1 where c1: "rewrite_path d0 k0 cfg = Inr c1" using rewrite_path_ok [OF d(2)] d(1) by blast
  have "\<exists>cfg'. rewrite_all ps c1 = Inr cfg'"
  proof (rule Cons.IH)
    fix dir key assume m: "(dir, key) \<in> set ps"
    then have a: "dir \<noteq> None" "\<exists>v. path_entry cfg key = Some (YStr v)"
      using Cons.prems [of dir key] by auto
    show "dir \<noteq> None \<and> (\<exists>v. path_entry c1 key = Some (YStr v))"
    proof (cases "key = k0")
      case True
      then show ?thesis using rewrite_path_entry [OF c1] a(1) by auto
    next
      case False
      then show ?thesis using rewrite_path_other [OF c1 False] a by simp
    qed
  qed
  then show ?case using c1 p by simp
qed

lemma rewrite_all_idem:
  assumes "rewrite_all ps cfg = Inr cfg'" and "distinct (map snd ps)"
  shows "rewrite_all ps cfg' = Inr cfg'"
proof (rule rewrite_all_fixed)
  fix dir key assume "(dir, key) \<in> set ps"
  then obtain d v where "dir = Some d" "path_entry cfg' key = Some (YStr (d @ ''/'' @ file_name v))"
    using rewrite_all_entry [OF assms] by blast
  then show "rewrite_path dir key cfg' = Inr cfg'"
    using rewrite_path_fixed [OF _ file_name_no_sep] by simp
qed

section \<open>The rewrites of the two steps\<close>

lemma preprocess_paths_distinct: "distinct (map snd (preprocess_paths args))"
  by (simp add: preprocess_paths_def)

lemma train_paths_distinct: "distinct (map snd (train_paths args))"
  by (simp add: train_paths_def)

lemma set_logs_Inr_D:
  assumes "set_logs dir cfg = Inr cfg'"
  shows "\<exists>doc pm. cfg = YMap doc \<and> doc ''PATHS'' = Some (YMap pm) \<and>
           cfg' = YMap (doc(''PATHS'' \<mapsto> YMap (pm(''LOGS'' \<mapsto> arg_value dir))))"
proof -
  obtain doc where doc: "cfg = YMap doc"
    using assms by (cases cfg) (simp_all add: set_logs_def and_then_def)
  obtain p where p: "doc ''PATHS'' = Some p"
    using assms doc by (cases "doc ''PATHS''") (simp_all add: set_logs_def and_then_def)
  obtain pm where pm: "p = YMap pm"
    using assms doc p by (cases p) (simp_all add: set_logs_def and_then_def)
  have "cfg' = YMap (doc(''PATHS'' \<mapsto> YMap (pm(''LOGS'' \<mapsto> arg_value dir))))"
    using assms doc p pm by (simp add: set_logs_def and_then_def)
  then show ?thesis using doc p pm by blast
qed

lemma set_logs_entry:
  assumes "set_logs dir cfg = Inr cfg'"
  shows "path_entry cfg' ''LOGS'' = Some (arg_value dir)"
  using set_logs_Inr_D [OF assms] by (auto simp: path_entry_def)

lemma set_logs_other:
  assumes "set_logs dir cfg = Inr cfg'" and "k \<noteq> ''LOGS''"
  shows "path_entry cfg' k = path_entry cfg k"
  using set_logs_Inr_D [OF assms(1)] assms(2) by (auto simp: path_entry_def)

lemma set_logs_section:
  assumes "set_logs dir cfg = Inr cfg'" and "s \<noteq> ''PATHS''"
  shows "getitem cfg' s = getitem cfg s"
  using set_logs_Inr_D [OF assms(1)] assms(2) by auto

lemma set_logs_fixed:
  assumes "path_entry cfg ''LOGS'' = Some (arg_value dir)"
  shows "set_logs dir cfg = Inr cfg"
proof -
  obtain doc pm where c: "cfg = YMap doc" "doc ''PATHS'' = Some (YMap pm)"
    "pm ''LOGS'' = Some (arg_value dir)"
    using assms unfolding path_entry_iff by blast
  have "pm(''LOGS'' \<mapsto> arg_value dir) = pm" using c(3) by (rule fun_upd_idem)
  moreover have "doc(''PATHS'' \<mapsto> YMap pm) = doc" using c(2) by (rule fun_upd_idem)
  ultimately show ?thesis using c(1,2) by (simp add: set_logs_def and_then_def)
qed

lemma set_logs_ok:
  assumes "path_entry cfg k = Some v"
  shows "\<exists>cfg'. set_logs dir cfg = Inr cfg'"
proof -
  obtain doc pm where "cfg = YMap doc" "doc ''PATHS'' = Some (YMap pm)"
    using assms unfolding path_entry_iff by blast
  then show ?thesis by (simp add: set_logs_def and_then_def)
qed

lemma train_rewrite_D:
  assumes "train_rewrite args cfg = Inr cfg'"
  shows "\<exists>c1. rewrite_all (train_paths args) cfg = Inr c1 \<and>
           set_logs (traininglogsdir args) c1 = Inr cfg'"
  using assms by (cases "rewrite_all (train_paths args) cfg")
    (simp_all add: train_rewrite_def and_then_def)

lemma train_rewrite_other:
  assumes "train_rewrite args cfg = Inr cfg'"
    and "k \<notin> snd ` set (train_paths args)" and "k \<noteq> ''LOGS''"
  shows "path_entry cfg' k = path_entry cfg k"
proof -
  obtain c1 where c1: "rewrite_all (train_paths args) cfg = Inr c1"
    "set_logs (traininglogsdir args) c1 = Inr cfg'"
    using train_rewrite_D [OF assms(1)] by blast
  show ?thesis
    using rewrite_all_other [OF c1(1) assms(2)] set_logs_other [OF c1(2) assms(3)] by simp
qed

lemma train_rewrite_entry:
  assumes "train_rewrite args cfg = Inr cfg'" and "(dir, key) \<in> set (train_paths args)"
  shows "\<exists>d v. dir = Some d \<and> path_entry cfg key = Some (YStr v) \<and>
           path_entry cfg' key = Some (YStr (d @ ''/'' @ file_name v))"
proof -
  obtain c1 where c1: "rewrite_all (train_paths args) cfg = Inr c1"
    "set_logs (traininglogsdir args) c1 = Inr cfg'"
    using train_rewrite_D [OF assms(1)] by blast
  have "key \<noteq> ''LOGS''" using assms(2) by (auto simp: train_paths_def)
  then have "path_entry cfg' key = path_entry c1 key" using set_logs_other [OF c1(2)] by simp
  then show ?thesis
    using rewrite_all_entry [OF c1(1) train_paths_distinct assms(2)] by simp
qed

lemma train_rewrite_logs:
  assumes "train_rewrite args cfg = Inr cfg'"
  shows "path_entry cfg' ''LOGS'' = Some (arg_value (traininglogsdir args))"
  using train_rewrite_D [OF assms] set_logs_entry by blast

lemma preprocess_rewrite_entry:
  assumes "preprocess_rewrite args cfg = Inr cfg'" and "(dir, key) \<in> set (preprocess_paths args)"
  shows "\<exists>d v. dir = Some d \<and> path_entry cfg key = Some (YStr v) \<and>
           path_entry cfg' key = Some (YStr (d @ ''/'' @ file_name v))"
  using assms rewrite_all_entry [OF _ preprocess_paths_distinct]
  unfolding preprocess_rewrite_def by blast

lemma train_rewrite_idem:
  assumes "train_rewrite args cfg = Inr cfg'"
  shows "train_rewrite args cfg' = Inr cfg'"
proof -
  have "rewrite_all (train_paths args) cfg' = Inr cfg'"
  proof (rule rewrite_all_fixed)
    fix dir key assume "(dir, key) \<in> set (train_paths args)"
    then obtain d v where "dir = Some d"
      "path_entry cfg' key = Some (YStr (d @ ''/'' @ file_name v))"
      using train_rewrite_entry [OF assms] by blast
    then show "rewrite_path dir key cfg' = Inr cfg'"
      using rewrite_path_fixed [OF _ file_name_no_sep] by simp
  qed
  moreover have "set_logs (traininglogsdir args) cfg' = Inr cfg'"
    using set_logs_fixed [OF train_rewrite_logs [OF assms]] .
  ultimately show ?thesis by (simp add: train_rewrite_def and_then_def)
qed

section \<open>The example configuration\<close>

lemma example_entry: "path_entry example_cfg k = map_of example_paths k"
  by (simp add: path_entry_def example_cfg_def split: option.splits)

lemma map_of_all_str:
  assumes "\<And>k v. (k, v) \<in> set kvs \<Longrightarrow> \<exists>s. v = YStr s" and "k \<in> fst ` set kvs"
  shows "\<exists>s. map_of kvs k = Some (YStr s)"
proof -
  obtain v where v: "map_of kvs k = Some v"
    using assms(2) by (cases "map_of kvs k") (simp_all add: map_of_eq_None_iff)
  then have "(k, v) \<in> set kvs" by (rule map_of_SomeD)
  then show ?thesis using assms(1) v by blast
qed

lemma example_paths_str: "(k, v) \<in> set example_paths \<Longrightarrow> \<exists>s. v = YStr s"
  by (auto simp: example_paths_def)

lemma example_keys:
  "fst ` set example_paths =
     {''RAW_DATA'', ''RAW_SPDAT_DATA'', ''PROCESSED_DATA'', ''PROCESSED_OHE_DATA'',
      ''TRAIN_SET'', ''TEST_SET'', ''GROUND_TRUTH'', ''DATA_INFO'', ''ORDINAL_COL_TRANSFORMER'',
      ''OHE_COL_TRANSFORMER_MV'', ''OHE_COL_TRANSFORMER_SV'', ''SCALER_COL_TRANSFORMER'',
      ''MODEL_TO_LOAD'', ''MODEL_WEIGHTS'', ''LOGS''}"
  by (simp add: example_paths_def)


lemma example_str:
  assumes "k \<in> fst ` set example_paths"
  shows "\<exists>s. path_entry example_cfg k = Some (YStr s)"
  unfolding example_entry using example_paths_str assms by (rule map_of_all_str)

lemma preprocess_example_ok: "\<exists>c. preprocess_rewrite example_preprocess_args example_cfg = Inr c"
  unfolding preprocess_rewrite_def
proof (rule rewrite_all_ok)
  fix dir key assume m: "(dir, key) \<in> set (preprocess_paths example_preprocess_args)"
  then have "dir \<noteq> None"
    by (auto simp: preprocess_paths_def example_preprocess_args_def)
  moreover have "key \<in> fst ` set example_paths"
    using m unfolding example_keys by (auto simp: preprocess_paths_def)
  ultimately show "dir \<noteq> None \<and> (\<exists>v. path_entry example_cfg key = Some (YStr v))"
    using example_str by blast
qed

lemma train_example_ok: "\<exists>c. train_rewrite example_train_args example_cfg = Inr c"
proof -
  have "\<exists>c. rewrite_all (train_paths example_train_args) example_cfg = Inr c"
  proof (rule rewrite_all_ok)
    fix dir key assume m: "(dir, key) \<in> set (train_paths example_train_args)"
    then have "dir \<noteq> None"
      by (auto simp: train_paths_def example_train_args_def)
    moreover have "key \<in> fst ` set example_paths"
      using m unfolding example_keys by (auto simp: train_paths_def)
    ultimately show "dir \<noteq> None \<and> (\<exists>v. path_entry example_cfg key = Some (YStr v))"
      using example_str by blast
  qed
  then obtain c1 where c1: "rewrite_all (train_paths example_train_args) example_cfg = Inr c1"
    by blast
  have "''MODEL_WEIGHTS'' \<in> fst ` set example_paths" unfolding example_keys by simp
  then obtain s where "path_entry example_cfg ''MODEL_WEIGHTS'' = Some (YStr s)"
    using example_str by blast
  moreover have "''MODEL_WEIGHTS'' \<notin> snd ` set (train_paths example_train_args)"
    by (simp add: train_paths_def)
  ultimately have "path_entry c1 ''MODEL_WEIGHTS'' = Some (YStr s)"
    using rewrite_all_other [OF c1] by simp
  then obtain c where "set_logs (traininglogsdir example_train_args) c1 = Inr c"
    using set_logs_ok by blast
  then show ?thesis using c1 by (simp add: train_rewrite_def and_then_def)
qed

lemma example_file_name:
  "file_name ''./data/preprocessed/processed.parquet'' = ''processed.parquet''"
  by (simp add: file_name_def)

lemma example_value:
  "path_entry example_cfg ''PROCESSED_DATA'' = Some (YStr ''./data/preprocessed/processed.parquet'')"
  by (simp add: example_entry example_paths_def)

section \<open>Properties of the path rewriting\<close>

text \<open>
  Claim C1, as the code has it. When a step's rewrite returns, every entry rewritten by a
  statement of the form \<open>dir + '/' + old.split('/')[-1]\<close> was a string, and its new
  value is the step's directory, a \<open>'/'\<close>, and the file name of the loaded value: the
  part after its last \<open>'/'\<close> (the whole value when it has none). That covers the
  eleven keys of the preprocessing step and the seven keys of the training step listed in
  \<open>train_paths\<close>. \<open>PATHS.LOGS\<close> in the training step is different: it becomes the
  \<open>traininglogsdir\<close> argument itself, and nothing of its loaded value is kept.
\<close>

theorem rewritten_paths_keep_file_name:
  "(preprocess_rewrite pargs cfg = Inr cfg1 \<longrightarrow>
      (\<forall>(dir, key) \<in> set (preprocess_paths pargs).
         \<exists>d v pre. dir = Some d \<and> path_entry cfg key = Some (YStr v) \<and>
           v = pre @ file_name v \<and> (pre = [] \<or> last pre = CHR ''/'') \<and>
           CHR ''/'' \<notin> set (file_name v) \<and>
           path_entry cfg1 key = Some (YStr (d @ ''/'' @ file_name v)))) \<and>
   (train_rewrite targs cfg = Inr cfg2 \<longrightarrow>
      (\<forall>(dir, key) \<in> set (train_paths targs).
         \<exists>d v pre. dir = Some d \<and> path_entry cfg key = Some (YStr v) \<and>
           v = pre @ file_name v \<and> (pre = [] \<or> last pre = CHR ''/'') \<and>
           CHR ''/'' \<notin> set (file_name v) \<and>
           path_entry cfg2 key = Some (YStr (d @ ''/'' @ file_name v))) \<and>
      path_entry cfg2 ''LOGS'' = Some (arg_value (traininglogsdir targs)))"
proof (intro conjI impI)
  assume r: "preprocess_rewrite pargs cfg = Inr cfg1"
  show "\<forall>(dir, key) \<in> set (preprocess_paths pargs).
         \<exists>d v pre. dir = Some d \<and> path_entry cfg key = Some (YStr v) \<and>
           v = pre @ file_name v \<and> (pre = [] \<or> last pre = CHR ''/'') \<and>
           CHR ''/'' \<notin> set (file_name v) \<and>
           path_entry cfg1 key = Some (YStr (d @ ''/'' @ file_name v))"
  proof (clarify)
    fix dir key assume "(dir, key) \<in> set (preprocess_paths pargs)"
    then obtain d v where e: "dir = Some d" "path_entry cfg key = Some (YStr v)"
      "path_entry cfg1 key = Some (YStr (d @ ''/'' @ file_name v))"
      using preprocess_rewrite_entry [OF r] by blast
    obtain pre where "v = pre @ file_name v" "pre = [] \<or> last pre = CHR ''/''"
      using split_decompose [of v "CHR ''/''"] unfolding file_name_def by blast
    then show "\<exists>d v pre. dir = Some d \<and> path_entry cfg key = Some (YStr v) \<and>
           v = pre @ file_name v \<and> (pre = [] \<or> last pre = CHR ''/'') \<and>
           CHR ''/'' \<notin> set (file_name v) \<and>
           path_entry cfg1 key = Some (YStr (d @ ''/'' @ file_name v))"
      using e file_name_no_sep by blast
  qed
next
  assume r: "train_rewrite targs cfg = Inr cfg2"
  show "\<forall>(dir, key) \<in> set (train_paths targs).
         \<exists>d v pre. dir = Some d \<and> path_entry cfg key = Some (YStr v) \<and>
           v = pre @ file_name v \<and> (pre = [] \<or> last pre = CHR ''/'') \<and>
           CHR ''/'' \<notin> set (file_name v) \<and>
           path_entry cfg2 key = Some (YStr (d @ ''/'' @ file_name v))"
  proof (clarify)
    fix dir key assume "(dir, key) \<in> set (train_paths targs)"
    then obtain d v where e: "dir = Some d" "path_entry cfg key = Some (YStr v)"
      "path_entry cfg2 key = Some (YStr (d @ ''/'' @ file_name v))"
      using train_rewrite_entry [OF r] by blast
    obtain pre where "v = pre @ file_name v" "pre = [] \<or> last pre = CHR ''/''"
      using split_decompose [of v "CHR ''/''"] unfolding file_name_def by blast
    then show "\<exists>d v pre. dir = Some d \<and> path_entry cfg key = Some (YStr v) \<and>
           v = pre @ file_name v \<and> (pre = [] \<or> last pre = CHR ''/'') \<and>
           CHR ''/'' \<notin> set (file_name v) \<and>
           path_entry cfg2 key = Some (YStr (d @ ''/'' @ file_name v))"
      using e file_name_no_sep by blast
  qed
next
  assume "train_rewrite targs cfg = Inr cfg2"
  then show "path_entry cfg2 ''LOGS'' = Some (arg_value (traininglogsdir targs))"
    by (rule train_rewrite_logs)
qed

text \<open>The theorem at the example configuration.\<close>

theorem rewritten_paths_keep_file_name_witness:
  "rewritten_entry (preprocess_rewrite example_preprocess_args example_cfg) ''RAW_DATA''
     = Some (YStr ''/mnt/raw/HIFIS_Clients.csv'') \<and>
   rewritten_entry (train_rewrite example_train_args example_cfg) ''MODEL_TO_LOAD''
     = Some (YStr ''/mnt/train/model.h5'') \<and>
   rewritten_entry (train_rewrite example_train_args example_cfg) ''LOGS''
     = Some (YStr ''/mnt/logs'')"
proof -
  obtain c1 where c1: "preprocess_rewrite example_preprocess_args example_cfg = Inr c1"
    using preprocess_example_ok by blast
  obtain c2 where c2: "train_rewrite example_train_args example_cfg = Inr c2"
    using train_example_ok by blast
  note t = rewritten_paths_keep_file_name
    [of example_preprocess_args example_cfg c1 example_train_args c2]
  have m1: "(Some ''/mnt/raw'', ''RAW_DATA'') \<in> set (preprocess_paths example_preprocess_args)"
    by (simp add: preprocess_paths_def example_preprocess_args_def)
  have m2: "(Some ''/mnt/train'', ''MODEL_TO_LOAD'') \<in> set (train_paths example_train_args)"
    by (simp add: train_paths_def example_train_args_def)
  have v1: "path_entry example_cfg ''RAW_DATA'' = Some (YStr ''data/raw/HIFIS_Clients.csv'')"
    by (simp add: example_entry example_paths_def)
  have v2: "path_entry example_cfg ''MODEL_TO_LOAD'' = Some (YStr ''results/models/model.h5'')"
    by (simp add: example_entry example_paths_def)
  have f1: "file_name ''data/raw/HIFIS_Clients.csv'' = ''HIFIS_Clients.csv''"
    by (simp add: file_name_def)
  have f2: "file_name ''results/models/model.h5'' = ''model.h5''"
    by (simp add: file_name_def)
  have "path_entry c1 ''RAW_DATA'' = Some (YStr ''/mnt/raw/HIFIS_Clients.csv'')"
    using t c1 m1 v1 f1 by fastforce
  moreover have "path_entry c2 ''MODEL_TO_LOAD'' = Some (YStr ''/mnt/train/model.h5'')"
    using t c2 m2 v2 f2 by fastforce
  moreover have "path_entry c2 ''LOGS'' = Some (YStr ''/mnt/logs'')"
    using t c2 by (simp add: example_train_args_def arg_value_def)
  ultimately show ?thesis using c1 c2 by (simp add: rewritten_entry_def)
qed

text \<open>
  Claim C1 as stated includes \<open>PATHS.LOGS\<close> of the training step among the entries
  that keep their file name. With \<open>LOGS = results/logs/training\<close> and
  \<open>--traininglogsdir /mnt/logs\<close> the rewritten entry is \<open>/mnt/logs\<close>, not
  \<open>/mnt/logs/training\<close>.
\<close>

theorem logs_entry_counterexample:
  "path_entry example_cfg ''LOGS'' = Some (YStr ''results/logs/training'') \<and>
   traininglogsdir example_train_args = Some ''/mnt/logs'' \<and>
   file_name ''results/logs/training'' = ''training'' \<and>
   rewritten_entry (train_rewrite example_train_args example_cfg) ''LOGS''
     = Some (YStr ''/mnt/logs'') \<and>
   rewritten_entry (train_rewrite example_train_args example_cfg) ''LOGS''
     \<noteq> Some (YStr (''/mnt/logs'' @ ''/'' @ file_name ''results/logs/training''))"
proof -
  obtain c2 where c2: "train_rewrite example_train_args example_cfg = Inr c2"
    using train_example_ok by blast
  have "path_entry c2 ''LOGS'' = Some (YStr ''/mnt/logs'')"
    using train_rewrite_logs [OF c2] by (simp add: example_train_args_def arg_value_def)
  then have "rewritten_entry (train_rewrite example_train_args example_cfg) ''LOGS''
     = Some (YStr ''/mnt/logs'')"
    using c2 by (simp add: rewritten_entry_def)
  moreover have "path_entry example_cfg ''LOGS'' = Some (YStr ''results/logs/training'')"
    by (simp add: example_entry example_paths_def)
  moreover have "traininglogsdir example_train_args = Some ''/mnt/logs''"
    by (simp add: example_train_args_def)
  moreover have "file_name ''results/logs/training'' = ''training''"
    by (simp add: file_name_def)
  ultimately show ?thesis by simp
qed

text \<open>
  Claim C2. Both steps start from the same loaded configuration and are given the same
  preprocessed-output directory \<open>d\<close>. When both rewrites return, each of the five shared
  entries has the same value in the two rewritten configurations: \<open>d\<close>, a \<open>'/'\<close> and
  the file name of the loaded value.
\<close>

theorem stages_agree_on_shared_paths:
  assumes "preprocess_rewrite pargs cfg = Inr cfg1"
    and "train_rewrite targs cfg = Inr cfg2"
    and "preprocess_args.preprocessedoutputdir pargs = Some d"
    and "train_args.preprocessedoutputdir targs = Some d"
    and "key \<in> {''PROCESSED_DATA'', ''PROCESSED_OHE_DATA'', ''TRAIN_SET'', ''TEST_SET'',
                 ''DATA_INFO''}"
  shows "path_entry cfg1 key = path_entry cfg2 key \<and>
         (\<exists>v. path_entry cfg key = Some (YStr v) \<and>
              path_entry cfg1 key = Some (YStr (d @ ''/'' @ file_name v)))"
proof -
  have m1: "(Some d, key) \<in> set (preprocess_paths pargs)"
    using assms(3,5) by (auto simp: preprocess_paths_def)
  have m2: "(Some d, key) \<in> set (train_paths targs)"
    using assms(4,5) by (auto simp: train_paths_def)
  obtain v where v: "path_entry cfg key = Some (YStr v)"
    "path_entry cfg1 key = Some (YStr (d @ ''/'' @ file_name v))"
    using preprocess_rewrite_entry [OF assms(1) m1] by auto
  obtain v' where v': "path_entry cfg key = Some (YStr v')"
    "path_entry cfg2 key = Some (YStr (d @ ''/'' @ file_name v'))"
    using train_rewrite_entry [OF assms(2) m2] by auto
  have "v' = v" using v(1) v'(1) by simp
  then show ?thesis using v v' by simp
qed

text \<open>The theorem at the example configuration, for the train set.\<close>

theorem stages_agree_on_shared_paths_witness:
  "rewritten_entry (preprocess_rewrite example_preprocess_args example_cfg) ''TRAIN_SET''
     = rewritten_entry (train_rewrite example_train_args example_cfg) ''TRAIN_SET'' \<and>
   rewritten_entry (preprocess_rewrite example_preprocess_args example_cfg) ''TRAIN_SET''
     = Some (YStr ''/mnt/output/train.csv'')"
proof -
  obtain c1 where c1: "preprocess_rewrite example_preprocess_args example_cfg = Inr c1"
    using preprocess_example_ok by blast
  obtain c2 where c2: "train_rewrite example_train_args example_cfg = Inr c2"
    using train_example_ok by blast
  have d1: "preprocess_args.preprocessedoutputdir example_preprocess_args = Some ''/mnt/output''"
    by (simp add: example_preprocess_args_def)
  have d2: "train_args.preprocessedoutputdir example_train_args = Some ''/mnt/output''"
    by (simp add: example_train_args_def)
  have k: "''TRAIN_SET'' \<in> {''PROCESSED_DATA'', ''PROCESSED_OHE_DATA'', ''TRAIN_SET'',
      ''TEST_SET'', ''DATA_INFO''}"
    by simp
  have v: "path_entry example_cfg ''TRAIN_SET'' = Some (YStr ''data/preprocessed/train.csv'')"
    by (simp add: example_entry example_paths_def)
  have f: "file_name ''data/preprocessed/train.csv'' = ''train.csv''"
    by (simp add: file_name_def)
  have e: "path_entry c1 ''TRAIN_SET'' = path_entry c2 ''TRAIN_SET''"
    and "path_entry c1 ''TRAIN_SET'' = Some (YStr ''/mnt/output/train.csv'')"
    using stages_agree_on_shared_paths [OF c1 c2 d1 d2 k] v f by auto
  then have "path_entry c1 ''TRAIN_SET'' = Some (YStr ''/mnt/output/train.csv'')"
    and "path_entry c2 ''TRAIN_SET'' = Some (YStr ''/mnt/output/train.csv'')"
    by simp_all
  then show ?thesis using c1 c2 by (simp add: rewritten_entry_def)
qed

text \<open>
  Claim C5. A step's rewrite applied to the configuration it produced, with the same
  arguments, returns that configuration unchanged.
\<close>

theorem rewrite_idempotent:
  "(preprocess_rewrite pargs cfg = Inr cfg1 \<longrightarrow> preprocess_rewrite pargs cfg1 = Inr cfg1) \<and>
   (train_rewrite targs cfg = Inr cfg2 \<longrightarrow> train_rewrite targs cfg2 = Inr cfg2)"
proof (intro conjI impI)
  assume "preprocess_rewrite pargs cfg = Inr cfg1"
  then show "preprocess_rewrite pargs cfg1 = Inr cfg1"
    unfolding preprocess_rewrite_def using preprocess_paths_distinct by (rule rewrite_all_idem)
next
  assume "train_rewrite targs cfg = Inr cfg2"
  then show "train_rewrite targs cfg2 = Inr cfg2" by (rule train_rewrite_idem)
qed

text \<open>The theorem at the example configuration: rewriting twice is rewriting once.\<close>

theorem rewrite_idempotent_witness:
  "and_then (preprocess_rewrite example_preprocess_args example_cfg)
       (preprocess_rewrite example_preprocess_args)
     = preprocess_rewrite example_preprocess_args example_cfg \<and>
   \<not> isl (preprocess_rewrite example_preprocess_args example_cfg) \<and>
   and_then (train_rewrite example_train_args example_cfg) (train_rewrite example_train_args)
     = train_rewrite example_train_args example_cfg \<and>
   \<not> isl (train_rewrite example_train_args example_cfg)"
proof -
  obtain c1 where c1: "preprocess_rewrite example_preprocess_args example_cfg = Inr c1"
    using preprocess_example_ok by blast
  obtain c2 where c2: "train_rewrite example_train_args example_cfg = Inr c2"
    using train_example_ok by blast
  show ?thesis
    using rewrite_idempotent [of example_preprocess_args example_cfg c1 example_train_args c2]
      c1 c2
    by (simp add: and_then_def)
qed

text \<open>
  Claim C7. When the loaded value of an entry is a string without \<open>'/'\<close>, the rewriting
  statement does not raise, and the entry becomes the directory, a \<open>'/'\<close> and the whole
  loaded value.
\<close>

theorem rewrite_without_separator:
  assumes "path_entry cfg key = Some (YStr v)" and "CHR ''/'' \<notin> set v"
  shows "\<exists>cfg'. rewrite_path (Some d) key cfg = Inr cfg' \<and>
           path_entry cfg' key = Some (YStr (d @ ''/'' @ v))"
proof -
  obtain cfg' where r: "rewrite_path (Some d) key cfg = Inr cfg'"
    using rewrite_path_ok [OF assms(1)] by blast
  have "path_entry cfg' key = Some (YStr (d @ ''/'' @ file_name v))"
    using rewrite_path_entry [OF r] assms(1) by auto
  then show ?thesis using r file_name_plain [OF assms(2)] by simp
qed

text \<open>The theorem at the example configuration, whose \<open>DATA_INFO\<close> is a bare file name.\<close>

theorem rewrite_without_separator_witness:
  "path_entry example_cfg ''DATA_INFO'' = Some (YStr ''data_info.yml'') \<and>
   CHR ''/'' \<notin> set ''data_info.yml'' \<and>
   rewritten_entry (rewrite_path (Some ''/mnt/output'') ''DATA_INFO'' example_cfg) ''DATA_INFO''
     = Some (YStr ''/mnt/output/data_info.yml'')"
proof -
  have v: "path_entry example_cfg ''DATA_INFO'' = Some (YStr ''data_info.yml'')"
    by (simp add: example_entry example_paths_def)
  have n: "CHR ''/'' \<notin> set ''data_info.yml''" by simp
  show ?thesis
    using rewrite_without_separator [OF v n, of "''/mnt/output''"] v
    by (auto simp: rewritten_entry_def)
qed

text \<open>
  Claim C8. With \<open>PATHS.PROCESSED_DATA = "./data/preprocessed/processed.parquet"\<close> and
  the target directory \<open>"/mnt/output"\<close>, the rewriting statement of either step (line 17
  of the preprocessing step, line 23 of the training step) returns, and the entry is
  \<open>"/mnt/output/processed.parquet"\<close>; the same holds at the end of each step's rewrite.
\<close>

theorem processed_data_scenario:
  assumes "path_entry cfg ''PROCESSED_DATA'' = Some (YStr ''./data/preprocessed/processed.parquet'')"
  shows "(\<exists>cfg'. rewrite_path (Some ''/mnt/output'') ''PROCESSED_DATA'' cfg = Inr cfg' \<and>
            path_entry cfg' ''PROCESSED_DATA'' = Some (YStr ''/mnt/output/processed.parquet'')) \<and>
         (preprocess_args.preprocessedoutputdir pargs = Some ''/mnt/output'' \<and>
            preprocess_rewrite pargs cfg = Inr cfg1 \<longrightarrow>
            path_entry cfg1 ''PROCESSED_DATA'' = Some (YStr ''/mnt/output/processed.parquet'')) \<and>
         (train_args.preprocessedoutputdir targs = Some ''/mnt/output'' \<and>
            train_rewrite targs cfg = Inr cfg2 \<longrightarrow>
            path_entry cfg2 ''PROCESSED_DATA'' = Some (YStr ''/mnt/output/processed.parquet''))"
proof (intro conjI impI)
  obtain cfg' where r: "rewrite_path (Some ''/mnt/output'') ''PROCESSED_DATA'' cfg = Inr cfg'"
    using rewrite_path_ok [OF assms] by blast
  have "path_entry cfg' ''PROCESSED_DATA'' = Some (YStr ''/mnt/output/processed.parquet'')"
    using rewrite_path_entry [OF r] assms example_file_name by auto
  then show "\<exists>cfg'. rewrite_path (Some ''/mnt/output'') ''PROCESSED_DATA'' cfg = Inr cfg' \<and>
            path_entry cfg' ''PROCESSED_DATA'' = Some (YStr ''/mnt/output/processed.parquet'')"
    using r by blast
next
  assume a: "preprocess_args.preprocessedoutputdir pargs = Some ''/mnt/output'' \<and>
            preprocess_rewrite pargs cfg = Inr cfg1"
  then have "(Some ''/mnt/output'', ''PROCESSED_DATA'') \<in> set (preprocess_paths pargs)"
    by (simp add: preprocess_paths_def)
  then show "path_entry cfg1 ''PROCESSED_DATA'' = Some (YStr ''/mnt/output/processed.parquet'')"
    using preprocess_rewrite_entry [of pargs cfg cfg1] a assms example_file_name by fastforce
next
  assume a: "train_args.preprocessedoutputdir targs = Some ''/mnt/output'' \<and>
            train_rewrite targs cfg = Inr cfg2"
  then have "(Some ''/mnt/output'', ''PROCESSED_DATA'') \<in> set (train_paths targs)"
    by (simp add: train_paths_def)
  then show "path_entry cfg2 ''PROCESSED_DATA'' = Some (YStr ''/mnt/output/processed.parquet'')"
    using train_rewrite_entry [of targs cfg cfg2] a assms example_file_name by fastforce
qed

text \<open>The theorem at the example configuration and the example arguments.\<close>

theorem processed_data_scenario_witness:
  "rewritten_entry (rewrite_path (Some ''/mnt/output'') ''PROCESSED_DATA'' example_cfg)
       ''PROCESSED_DATA''
     = Some (YStr ''/mnt/output/processed.parquet'') \<and>
   rewritten_entry (preprocess_rewrite example_preprocess_args example_cfg) ''PROCESSED_DATA''
     = Some (YStr ''/mnt/output/processed.parquet'') \<and>
   rewritten_entry (train_rewrite example_train_args example_cfg) ''PROCESSED_DATA''
     = Some (YStr ''/mnt/output/processed.parquet'')"
proof -
  obtain c1 where c1: "preprocess_rewrite example_preprocess_args example_cfg = Inr c1"
    using preprocess_example_ok by blast
  obtain c2 where c2: "train_rewrite example_train_args example_cfg = Inr c2"
    using train_example_ok by blast
  have d1: "preprocess_args.preprocessedoutputdir example_preprocess_args = Some ''/mnt/output''"
    by (simp add: example_preprocess_args_def)
  have d2: "train_args.preprocessedoutputdir example_train_args = Some ''/mnt/output''"
    by (simp add: example_train_args_def)
  show ?thesis
    using processed_data_scenario
      [OF example_value, of example_preprocess_args c1 example_train_args c2] c1 c2 d1 d2
    by (auto simp: rewritten_entry_def)
qed

section \<open>The metrics-logging callback\<close>

lemma str_int_0: "str_int 0 = ''0''"
  by (simp add: str_int_def str_nat.simps)

lemma str_int_1: "str_int 1 = ''1''"
  by (simp add: str_int_def str_nat.simps)

lemma fold_run_log_scalar:
  "fold (\<lambda>(name, val). run_log_scalar (f name) val) log w =
     w\<lparr>run_log := run_log w @ map (\<lambda>(name, val). Scalar (f name) val) log\<rparr>"
proof (induction log arbitrary: w)
  case Nil
  show ?case by simp
next
  case (Cons a log)
  obtain name val where a: "a = (name, val)" by (cases a)
  have "fold (\<lambda>(name, val). run_log_scalar (f name) val) (a # log) w =
      fold (\<lambda>(name, val). run_log_scalar (f name) val) log (run_log_scalar (f name) val w)"
    by (simp add: a)
  also have "\<dots> = (run_log_scalar (f name) val w)
      \<lparr>run_log := run_log (run_log_scalar (f name) val w) @
         map (\<lambda>(name, val). Scalar (f name) val) log\<rparr>"
    by (rule Cons.IH)
  also have "\<dots> = w\<lparr>run_log := run_log w @ map (\<lambda>(name, val). Scalar (f name) val) (a # log)\<rparr>"
    by (simp add: a run_log_scalar_def)
  finally show ?case .
qed

lemma map_zip_snd:
  "length xs = length ys \<Longrightarrow> map (\<lambda>(x, y). g y) (zip xs ys) = map g ys"
  by (induction xs ys rule: list_induct2) simp_all

lemma on_epoch_end_eq:
  "on_epoch_end self epoch log w =
     (self\<lparr>model_counter := model_counter self + (if epoch = 1 then 1 else 0)\<rparr>,
      w\<lparr>run_log := run_log w @
          map (\<lambda>(name, val).
                 Scalar (''model'' @ str_int (model_counter self + (if epoch = 1 then 1 else 0))
                           @ ''_'' @ name) val) log\<rparr>)"
  by (simp add: on_epoch_end_def Let_def fold_run_log_scalar)

lemma epoch_ends_counter:
  "model_counter (fst (epoch_ends self calls w)) =
     model_counter self + int (length (filter (\<lambda>(epoch, log). epoch = 1) calls))"
proof (induction calls arbitrary: self w)
  case Nil
  show ?case by simp
next
  case (Cons c calls)
  obtain epoch log where c: "c = (epoch, log)" by (cases c)
  show ?case by (simp add: c on_epoch_end_eq Cons.IH)
qed

lemma epoch_ends_no_boundary:
  assumes "\<And>epoch log. (epoch, log) \<in> set calls \<Longrightarrow> epoch \<noteq> 1"
  shows "epoch_ends self calls w =
     (self,
      w\<lparr>run_log := run_log w @
          concat (map (\<lambda>(epoch, log).
                        map (\<lambda>(name, val).
                               Scalar (''model'' @ str_int (model_counter self) @ ''_'' @ name) val)
                            log) calls)\<rparr>)"
  using assms
proof (induction calls arbitrary: w)
  case Nil
  show ?case by simp
next
  case (Cons c calls)
  obtain epoch log where c: "c = (epoch, log)" by (cases c)
  have e: "epoch \<noteq> 1" using Cons.prems [of epoch log] c by simp
  have r: "\<And>epoch log. (epoch, log) \<in> set calls \<Longrightarrow> epoch \<noteq> 1"
    using Cons.prems by auto
  show ?case by (simp add: c e on_epoch_end_eq Cons.IH [OF r])
qed

text \<open>
  Claim C3. A call of \<open>on_epoch_end\<close> adds one to the counter when the epoch index is 1
  and leaves it alone otherwise; every metric of the call's log is sent to the tracking
  sink, in order, under the name \<open>'model' + str(counter) + '_' + metric name\<close>, with the
  counter as it is after that step; nothing else of the outside world changes. After any
  sequence of calls the counter has grown by the number of calls whose epoch index was 1,
  so from the fresh callback it equals that number.
\<close>

theorem on_epoch_end_counts_epoch_one:
  "model_counter (fst (on_epoch_end self epoch log w)) =
     model_counter self + (if epoch = 1 then 1 else 0) \<and>
   run_log (snd (on_epoch_end self epoch log w)) =
     run_log w @
     map (\<lambda>(name, val).
            Scalar (''model'' @ str_int (model_counter (fst (on_epoch_end self epoch log w)))
                      @ ''_'' @ name) val) log \<and>
   files (snd (on_epoch_end self epoch log w)) = files w \<and>
   saved_models (snd (on_epoch_end self epoch log w)) = saved_models w \<and>
   model_counter (fst (epoch_ends self calls w)) =
     model_counter self + int (length (filter (\<lambda>(epoch, log). epoch = 1) calls)) \<and>
   model_counter (fst (epoch_ends LogRunMetrics_init calls w)) =
     int (length (filter (\<lambda>(epoch, log). epoch = 1) calls))"
proof -
  have "model_counter (fst (epoch_ends LogRunMetrics_init calls w)) =
     int (length (filter (\<lambda>(epoch, log). epoch = 1) calls))"
    by (simp add: epoch_ends_counter LogRunMetrics_init_def)
  then show ?thesis by (simp add: on_epoch_end_eq epoch_ends_counter)
qed

text \<open>
  Claim C10. The callback starts with counter 0 and the first model's epochs are reported
  with indices 0, 1, 2, ... So the metrics of its epoch 0 go to the sink under
  \<open>model0_\<close>, and the metrics of all its later epochs under \<open>model1_\<close>.
\<close>

theorem first_model_uses_two_prefixes:
  "run_log (snd (epoch_ends LogRunMetrics_init
       ((0, log0) # zip (map int [1..<Suc (length logs)]) logs) w)) =
     run_log w @
     map (\<lambda>(name, val). Scalar (''model0_'' @ name) val) log0 @
     concat (map (\<lambda>log. map (\<lambda>(name, val). Scalar (''model1_'' @ name) val) log) logs)"
proof (cases logs)
  case Nil
  then show ?thesis by (simp add: on_epoch_end_eq LogRunMetrics_init_def str_int_0)
next
  case (Cons log1 rest)
  define later where "later = zip (map int [Suc (Suc 0)..<Suc (Suc (length rest))]) rest"
  have "[Suc 0..<Suc (Suc (length rest))] = Suc 0 # [Suc (Suc 0)..<Suc (Suc (length rest))]"
    by (rule upt_conv_Cons) simp
  then have idx: "[1..<Suc (length logs)] = Suc 0 # [Suc (Suc 0)..<Suc (Suc (length rest))]"
    using Cons by simp
  have calls: "zip (map int [1..<Suc (length logs)]) logs = (1, log1) # later"
    unfolding idx later_def using Cons by simp
  have no1: "\<And>epoch log. (epoch, log) \<in> set later \<Longrightarrow> epoch \<noteq> 1"
  proof -
    fix epoch log assume "(epoch, log) \<in> set later"
    then have "epoch \<in> set (map int [Suc (Suc 0)..<Suc (Suc (length rest))])"
      unfolding later_def by (rule set_zip_leftD)
    then show "epoch \<noteq> 1" by auto
  qed
  have len: "length (map int [Suc (Suc 0)..<Suc (Suc (length rest))]) = length rest"
    by (simp only: length_map length_upt diff_Suc_Suc diff_zero)
  have tags: "\<And>h::(string \<times> 'a) list \<Rightarrow> ('a, 'b) logged list.
      concat (map (\<lambda>(epoch, log). h log) later) = concat (map h rest)"
    unfolding later_def by (rule arg_cong [where f = concat], rule map_zip_snd, rule len)
  show ?thesis
    unfolding calls
    by (simp add: on_epoch_end_eq LogRunMetrics_init_def str_int_0 str_int_1
        epoch_ends_no_boundary [OF no1] tags Cons)
qed

section \<open>Splitting path strings\<close>

lemma str_split_append: "str_split (a @ c # b) c = str_split a c @ str_split b c"
proof (induction a)
  case Nil
  show ?case by simp
next
  case (Cons x a)
  obtain w ws where w: "str_split a c = w # ws"
    using str_split_nonempty [of a c] by (cases "str_split a c") auto
  show ?case using Cons w by simp
qed

lemma str_split_snoc_sep: "str_split (a @ [c]) c = str_split a c @ [[]]"
  using str_split_append [of a c "[]"] by simp

lemma file_name_last: "file_name s = last (str_split s (CHR ''/''))"
  by (simp add: file_name_def)

lemma file_name_decompose:
  "\<exists>pre. s = pre @ file_name s \<and> (pre = [] \<or> last pre = CHR ''/'')"
  using split_decompose [of s "CHR ''/''"] by (simp add: file_name_def)

lemma file_name_nonempty:
  assumes "s \<noteq> []" and "last s \<noteq> CHR ''/''"
  shows "file_name s \<noteq> []"
proof
  assume e: "file_name s = []"
  obtain pre where p: "s = pre @ file_name s" "pre = [] \<or> last pre = CHR ''/''"
    using file_name_decompose by blast
  then have "s = pre" using e by simp
  then show False using p(2) assms by auto
qed


lemma plain_names_snoc_sep: "plain_names (s @ ''/'') = plain_names s"
  using str_split_snoc_sep [of s "CHR ''/''"] by (simp add: plain_names_def)

lemma rstrip_snoc_sep: "rstrip_slash (h @ ''/'') = rstrip_slash h"
  by (simp add: rstrip_slash_def)

lemma rstrip_snoc_other: "c \<noteq> CHR ''/'' \<Longrightarrow> rstrip_slash (h @ [c]) = h @ [c]"
  by (simp add: rstrip_slash_def)

lemma rstrip_Nil: "rstrip_slash [] = []"
  by (simp add: rstrip_slash_def)

lemma rstrip_props:
  "plain_names (rstrip_slash h) = plain_names h \<and>
   set (str_split (rstrip_slash h) (CHR ''/'')) \<subseteq> set (str_split h (CHR ''/'')) \<and>
   set (rstrip_slash h) \<subseteq> set h \<and>
   (rstrip_slash h \<noteq> [] \<longrightarrow> hd (rstrip_slash h) = hd h \<and> last (rstrip_slash h) \<noteq> CHR ''/'') \<and>
   (rstrip_slash h = [] \<longrightarrow> set h \<subseteq> {CHR ''/''})"
proof (induction h rule: rev_induct)
  case Nil
  show ?case by (simp add: rstrip_Nil)
next
  case (snoc c h)
  show ?case
  proof (cases "c = CHR ''/''")
    case True
    have r: "rstrip_slash (h @ [c]) = rstrip_slash h" using True rstrip_snoc_sep by simp
    have s: "str_split (h @ [c]) (CHR ''/'') = str_split h (CHR ''/'') @ [[]]"
      using True str_split_snoc_sep by simp
    have p: "plain_names (h @ [c]) = plain_names h" using True plain_names_snoc_sep by simp
    have hd: "rstrip_slash h \<noteq> [] \<Longrightarrow> hd (h @ [c]) = hd h"
      using snoc.IH by (cases h) (auto simp: rstrip_Nil)
    show ?thesis unfolding r s p using snoc.IH hd True by auto
  next
    case False
    then show ?thesis by (simp add: rstrip_snoc_other)
  qed
qed

lemma all_slashes_iff: "h = replicate (length h) (CHR ''/'') \<longleftrightarrow> set h \<subseteq> {CHR ''/''}"
proof
  assume "h = replicate (length h) (CHR ''/'')"
  then have "set h = set (replicate (length h) (CHR ''/''))" by simp
  then show "set h \<subseteq> {CHR ''/''}" by auto
next
  assume "set h \<subseteq> {CHR ''/''}"
  then show "h = replicate (length h) (CHR ''/'')"
    by (induction h) auto
qed


text \<open>What \<open>posixpath.split\<close> does to the segments of a path.\<close>

lemma path_split_props:
  assumes "path_split p = (head, tail)"
  shows "tail = file_name p"
    and "plain_names p = plain_names head @ filter (\<lambda>seg. seg \<noteq> [] \<and> seg \<noteq> ''.'') [tail]"
    and "set (str_split head (CHR ''/'')) \<subseteq> insert [] (set (str_split p (CHR ''/'')))"
    and "set head \<subseteq> set p"
    and "head \<noteq> [] \<Longrightarrow> p \<noteq> [] \<and> hd head = hd p"
    and "head = [] \<Longrightarrow> p = tail"
    and "head \<noteq> [] \<Longrightarrow> set head \<subseteq> {CHR ''/''} \<or> last (str_split head (CHR ''/'')) \<noteq> []"
    and "tail = [] \<Longrightarrow> set head \<subseteq> {CHR ''/''} \<Longrightarrow> set p \<subseteq> {CHR ''/''}"
proof -
  show t: "tail = file_name p" using assms by (auto simp: path_split_def Let_def)
  obtain pre where pre: "p = pre @ tail" "pre = [] \<or> last pre = CHR ''/''"
    using file_name_decompose [of p] t by auto
  have "length p = length pre + length tail"
    using arg_cong [OF pre(1), of length] by simp
  then have "length p - length (file_name p) = length pre" using t by simp
  moreover have "take (length pre) p = pre" by (subst pre(1)) simp
  ultimately have raw: "take (length p - length (file_name p)) p = pre" by simp
  have "(if pre \<noteq> [] \<and> pre \<noteq> replicate (length pre) (CHR ''/'')
         then rstrip_slash pre else pre, file_name p) = (head, tail)"
    using assms unfolding path_split_def Let_def raw .
  then have "head = (if pre \<noteq> [] \<and> pre \<noteq> replicate (length pre) (CHR ''/'')
         then rstrip_slash pre else pre)"
    by simp
  then have h: "head = (if pre \<noteq> [] \<and> \<not> set pre \<subseteq> {CHR ''/''} then rstrip_slash pre else pre)"
    unfolding all_slashes_iff .
  have nosep: "CHR ''/'' \<notin> set tail" using t file_name_no_sep by simp
  have segs_tail: "str_split tail (CHR ''/'') = [tail]" using nosep by (rule str_split_no_sep)
  have segs_p: "pre \<noteq> [] \<Longrightarrow>
      str_split p (CHR ''/'') = str_split (butlast pre) (CHR ''/'') @ [tail]"
  proof -
    assume ne: "pre \<noteq> []"
    then have "pre = butlast pre @ ''/''" using pre(2) by (metis append_butlast_last_id)
    then have "p = butlast pre @ CHR ''/'' # tail" using pre(1) by simp
    then show ?thesis using str_split_append [of "butlast pre" "CHR ''/''" tail] segs_tail
      by simp
  qed
  have segs_pre: "pre \<noteq> [] \<Longrightarrow>
      str_split pre (CHR ''/'') = str_split (butlast pre) (CHR ''/'') @ [[]]"
  proof -
    assume ne: "pre \<noteq> []"
    then have "pre = butlast pre @ ''/''" using pre(2) by (metis append_butlast_last_id)
    then show ?thesis using str_split_snoc_sep [of "butlast pre" "CHR ''/''"] by simp
  qed
  have names_pre: "plain_names p = plain_names pre @ filter (\<lambda>seg. seg \<noteq> [] \<and> seg \<noteq> ''.'') [tail]"
  proof (cases "pre = []")
    case True
    then show ?thesis using pre(1) segs_tail by (simp add: plain_names_def)
  next
    case False
    show ?thesis using segs_p [OF False] segs_pre [OF False] by (simp add: plain_names_def)
  qed
  have names_head: "plain_names head = plain_names pre"
    using h rstrip_props [of pre] by simp
  show "plain_names p = plain_names head @ filter (\<lambda>seg. seg \<noteq> [] \<and> seg \<noteq> ''.'') [tail]"
    using names_pre names_head by simp
  have sub_pre: "set (str_split pre (CHR ''/'')) \<subseteq> insert [] (set (str_split p (CHR ''/'')))"
  proof (cases "pre = []")
    case True
    then show ?thesis by simp
  next
    case False
    show ?thesis using segs_p [OF False] segs_pre [OF False] by auto
  qed
  show "set (str_split head (CHR ''/'')) \<subseteq> insert [] (set (str_split p (CHR ''/'')))"
    using sub_pre h rstrip_props [of pre] by auto
  show "set head \<subseteq> set p" using h pre(1) rstrip_props [of pre] by auto
  show "p \<noteq> [] \<and> hd head = hd p" if "head \<noteq> []"
  proof -
    have "pre \<noteq> []" using that h by (auto simp: rstrip_Nil split: if_splits)
    moreover have "hd head = hd pre" using that h rstrip_props [of pre] by (auto split: if_splits)
    ultimately show ?thesis using pre(1) by simp
  qed
  show "p = tail" if "head = []"
  proof -
    have "pre = []"
    proof (rule ccontr)
      assume ne: "pre \<noteq> []"
      show False
      proof (cases "set pre \<subseteq> {CHR ''/''}")
        case True
        then show ?thesis using h that ne by simp
      next
        case False
        then have "rstrip_slash pre = []" using h that ne by simp
        then show ?thesis using rstrip_props [of pre] False by simp
      qed
    qed
    then show ?thesis using pre(1) by simp
  qed
  show "set head \<subseteq> {CHR ''/''} \<or> last (str_split head (CHR ''/'')) \<noteq> []" if "head \<noteq> []"
  proof (cases "pre \<noteq> [] \<and> \<not> set pre \<subseteq> {CHR ''/''}")
    case True
    then have "head = rstrip_slash pre" using h by simp
    then have "last head \<noteq> CHR ''/''" using that rstrip_props [of pre] by simp
    then have "file_name head \<noteq> []" using that file_name_nonempty by simp
    then show ?thesis by (simp add: file_name_def)
  next
    case False
    then have "head = pre" using h by (simp only: if_False)
    then show ?thesis using False that by auto
  qed
  show "set p \<subseteq> {CHR ''/''}" if e: "tail = []" and sl: "set head \<subseteq> {CHR ''/''}"
  proof (cases "pre \<noteq> [] \<and> \<not> set pre \<subseteq> {CHR ''/''}")
    case True
    then have hr: "head = rstrip_slash pre" using h by simp
    show ?thesis
    proof (cases "head = []")
      case True
      then show ?thesis using hr rstrip_props [of pre] pre(1) e by simp
    next
      case False
      then have "last head \<noteq> CHR ''/''" using hr rstrip_props [of pre] by simp
      moreover have "last head \<in> set head" using False by simp
      ultimately show ?thesis using sl by auto
    qed
  next
    case False
    then have "set pre \<subseteq> {CHR ''/''}" by auto
    then show ?thesis using pre(1) e by simp
  qed
qed

text \<open>The same for the first three lines of \<open>os.makedirs\<close>.\<close>

lemma head_tail_cases:
  assumes "head_tail name = (head, tail)"
  obtains h0 where "path_split name = (h0, [])" and "path_split h0 = (head, tail)"
  | "path_split name = (head, tail)" and "tail \<noteq> []"
proof -
  obtain h0 t0 where s0: "path_split name = (h0, t0)" by (cases "path_split name")
  show ?thesis
  proof (cases "t0 = []")
    case True
    then have "path_split h0 = (head, tail)" using assms s0 by (simp add: head_tail_def)
    then show ?thesis using that(1) s0 True by simp
  next
    case False
    then have "head = h0" "tail = t0" using assms s0 by (simp_all add: head_tail_def)
    then show ?thesis using that(2) s0 False by simp
  qed
qed






lemma head_tail_no_tail:
  assumes "head_tail name = (head, tail)" and "tail = []"
  shows "set name \<subseteq> {CHR ''/''}"
  using assms(1)
proof (cases rule: head_tail_cases)
  case (1 h0)
  note p0 = path_split_props [OF 1(1)] and p1 = path_split_props [OF 1(2)]
  show ?thesis
  proof (cases "h0 = []")
    case True
    then have "name = []" using p0(6) by simp
    then show ?thesis by simp
  next
    case False
    have "file_name h0 = []" using assms(2) p1(1) by simp
    then have "last (str_split h0 (CHR ''/'')) = []" by (simp add: file_name_def)
    then have "set h0 \<subseteq> {CHR ''/''}" using p0(7) [OF False] by simp
    then show ?thesis using p0(8) by simp
  qed
next
  case 2
  then show ?thesis using assms(2) by simp
qed



section \<open>Name resolution\<close>


lemma node_at_None: "node_at fs p = None \<longleftrightarrow> p \<noteq> [] \<and> nodes fs p = None"
  by (simp add: node_at_def)



















section \<open>Making directories\<close>








section \<open>Directory provisioning\<close>



text \<open>
  Over a regular file \<open>/mnt/out\<close>, a trailing slash or a trailing \<open>.\<close> makes the path
  absent for \<open>os.path.exists\<close>, and provisioning raises without changing anything; a
  \<open>..\<close> segment steps back to the parent directory, and is refused after a file.
\<close>

lemma provision_trailing_over_file:
  "\<not> os_path_exists file_fs ''/mnt/out/'' \<and>
   provision (Some ''/mnt/out/'') file_fs = (Inl FileExistsError, file_fs) \<and>
   \<not> os_path_exists file_fs ''/mnt/out/.'' \<and>
   provision (Some ''/mnt/out/.'') file_fs = (Inl NotADirectoryError, file_fs) \<and>
   stat file_fs ''/mnt/../mnt/out'' = Inr [''mnt'', ''out''] \<and>
   stat file_fs ''/mnt/out/..'' = Inl NotADirectoryError"
proof -
  have a: "\<not> os_path_exists file_fs ''/mnt/out/''" by code_simp
  have b: "fst (provision (Some ''/mnt/out/'') file_fs) = Inl FileExistsError" by code_simp
  have c: "\<not> os_path_exists file_fs ''/mnt/out/.''" by code_simp
  have d: "fst (provision (Some ''/mnt/out/.'') file_fs) = Inl NotADirectoryError" by code_simp
  have e: "stat file_fs ''/mnt/../mnt/out'' = Inr [''mnt'', ''out'']" by code_simp
  have f: "stat file_fs ''/mnt/out/..'' = Inl NotADirectoryError" by code_simp
  have g: "fst (mkdir_step ''/mnt/out/'' file_fs) = Inl FileExistsError" by code_simp
  then have g': "mkdir_step ''/mnt/out/'' file_fs = (Inl FileExistsError, file_fs)"
    by (simp add: mkdir_step_def split: sum.splits)
  have h: "fst (mkdir_step ''/mnt/out/.'' file_fs) = Inl NotADirectoryError" by code_simp
  then have h': "mkdir_step ''/mnt/out/.'' file_fs = (Inl NotADirectoryError, file_fs)"
    by (simp add: mkdir_step_def split: sum.splits)
  have i: "os_path_exists file_fs ''/mnt''" by code_simp
  have j: "os_path_exists file_fs ''/mnt/out''" by code_simp
  have k: "head_tail ''/mnt/out/'' = (''/mnt'', ''out'')" by code_simp
  have l: "head_tail ''/mnt/out/.'' = (''/mnt/out'', ''.'')" by code_simp
  have m1: "makedirs ''/mnt/out/'' file_fs = (Inl FileExistsError, file_fs)"
    by (subst makedirs.simps) (simp add: k i g')
  have m2: "makedirs ''/mnt/out/.'' file_fs = (Inl NotADirectoryError, file_fs)"
    by (subst makedirs.simps) (simp add: l j h')
  show ?thesis using a b c d e f m1 m2 by (simp add: provision_def)
qed




section \<open>The training step and the persistence sink\<close>

lemma seq_saved:
  assumes "\<And>w. saved_models (snd (m w)) = saved_models w"
    and "\<And>x w. saved_models (snd (f x w)) = saved_models w"
  shows "saved_models (snd (seq m f w)) = saved_models w"
proof (cases "m w")
  case (Pair r w')
  have w': "saved_models w' = saved_models w" using assms(1) [of w] Pair by simp
  show ?thesis
  proof (cases r)
    case (Inl e)
    then show ?thesis using Pair w' by (simp add: seq_def)
  next
    case (Inr x)
    then show ?thesis using Pair w' assms(2) [of x w'] by (simp add: seq_def)
  qed
qed

lemma pure_step_saved: "saved_models (snd (pure_step r w)) = saved_models w"
  by (simp add: pure_step_def)

lemma effect_saved:
  assumes "\<And>w. saved_models (g w) = saved_models w"
  shows "saved_models (snd (effect g w)) = saved_models w"
  using assms by (simp add: effect_def)

lemma run_log_scalar_saved: "saved_models (run_log_scalar name val w) = saved_models w"
  by (simp add: run_log_scalar_def)

lemma run_log_image_saved: "saved_models (run_log_image name plt w) = saved_models w"
  by (simp add: run_log_image_def)

lemma log_test_metrics_saved: "saved_models (log_test_metrics ms w) = saved_models w"
  by (simp add: log_test_metrics_def fold_run_log_scalar)

lemma provision_step_saved: "saved_models (snd (provision_step dir w)) = saved_models w"
  by (simp add: provision_step_def split: prod.splits)

lemma epoch_ends_saved: "saved_models (snd (epoch_ends self calls w)) = saved_models w"
proof (induction calls arbitrary: self w)
  case Nil
  show ?case by simp
next
  case (Cons c calls)
  obtain epoch log where c: "c = (epoch, log)" by (cases c)
  show ?case by (simp add: c on_epoch_end_eq Cons.IH)
qed

lemma training_saved:
  "saved_models (snd (training ext cfg data patience logs w)) = saved_models w"
  by (simp add: training_def epoch_ends_saved split: prod.splits)

lemma train_and_report_saved:
  "saved_models (snd (train_and_report ext args cfg w)) = saved_models w"
  unfolding train_and_report_def
  by (intro seq_saved pure_step_saved effect_saved provision_step_saved training_saved
      run_log_scalar_saved run_log_image_saved log_test_metrics_saved
      | simp only: split_paired_all prod.case)+

lemma cfg_item_paths:
  "cfg_item cfg ''PATHS'' key = Inr v \<longleftrightarrow> path_entry cfg key = Some v"
  by (simp add: cfg_item_def path_entry_def and_then_def split: sum.splits)

lemma cfg_item_paths_missing:
  "path_entry cfg key = None \<Longrightarrow> \<exists>e. cfg_item cfg ''PATHS'' key = Inl e"
  by (simp add: cfg_item_def path_entry_def and_then_def split: sum.splits)

lemma save_weights_null:
  assumes "path_entry cfg ''MODEL_WEIGHTS'' = Some YNull"
  shows "save_weights cfg model w = (Inr (), w)"
proof -
  have "cfg_item cfg ''PATHS'' ''MODEL_WEIGHTS'' = Inr YNull"
    using assms by (simp only: cfg_item_paths)
  then show ?thesis by (simp add: save_weights_def seq_def pure_step_def)
qed

lemma save_weights_missing:
  assumes "path_entry cfg ''MODEL_WEIGHTS'' = None"
  shows "\<exists>e. save_weights cfg model w = (Inl e, w)"
proof -
  obtain e where "cfg_item cfg ''PATHS'' ''MODEL_WEIGHTS'' = Inl e"
    using cfg_item_paths_missing [OF assms] by blast
  then show ?thesis by (simp add: save_weights_def seq_def pure_step_def)
qed

lemma save_weights_set:
  assumes "path_entry cfg ''MODEL_WEIGHTS'' = Some v" and "v \<noteq> YNull"
    and "path_entry cfg ''MODEL_TO_LOAD'' = Some dest"
  shows "save_weights cfg model w = (Inr (), save_model model dest w)"
proof -
  have "cfg_item cfg ''PATHS'' ''MODEL_WEIGHTS'' = Inr v"
    using assms(1) by (simp only: cfg_item_paths)
  moreover have "cfg_item cfg ''PATHS'' ''MODEL_TO_LOAD'' = Inr dest"
    using assms(3) by (simp only: cfg_item_paths)
  ultimately show ?thesis using assms(2)
    by (simp add: save_weights_def seq_def pure_step_def effect_def)
qed

lemma save_weights_saved_null:
  assumes "path_entry cfg ''MODEL_WEIGHTS'' = Some YNull \<or> path_entry cfg ''MODEL_WEIGHTS'' = None"
  shows "saved_models (snd (save_weights cfg model w)) = saved_models w"
  using assms save_weights_null [of cfg model w] save_weights_missing [of cfg model w] by auto

lemma train_step_reached:
  assumes "train_rewrite args cfg0 = Inr cfg"
    and "train_and_report ext args cfg w = (Inr model, w1)"
  shows "train_step ext args cfg0 w = save_weights cfg model w1"
  using assms by (simp add: train_step_def seq_def pure_step_def)

lemma train_step_rewritten:
  assumes "train_rewrite args cfg0 = Inr cfg"
  shows "train_step ext args cfg0 w =
           seq (train_and_report ext args cfg) (\<lambda>model. save_weights cfg model) w"
  using assms by (simp add: train_step_def seq_def pure_step_def)

lemma train_rewrite_keeps_weights:
  assumes "train_rewrite args cfg0 = Inr cfg"
  shows "path_entry cfg ''MODEL_WEIGHTS'' = path_entry cfg0 ''MODEL_WEIGHTS''"
  using assms by (rule train_rewrite_other) (simp_all add: train_paths_def)

lemma train_rewrite_model_to_load:
  assumes "train_rewrite args cfg0 = Inr cfg"
  shows "\<exists>d v. trainoutputdir args = Some d \<and> path_entry cfg0 ''MODEL_TO_LOAD'' = Some (YStr v) \<and>
           path_entry cfg ''MODEL_TO_LOAD'' = Some (YStr (d @ ''/'' @ file_name v))"
proof -
  have "(trainoutputdir args, ''MODEL_TO_LOAD'') \<in> set (train_paths args)"
    by (simp add: train_paths_def)
  then show ?thesis using train_rewrite_entry [OF assms] by blast
qed

lemma train_step_null_saved:
  assumes "path_entry cfg0 ''MODEL_WEIGHTS'' = Some YNull"
  shows "saved_models (snd (train_step ext args cfg0 w)) = saved_models w"
proof (cases "train_rewrite args cfg0")
  case (Inl e)
  then show ?thesis by (simp add: train_step_def seq_def pure_step_def)
next
  case (Inr cfg)
  have n: "path_entry cfg ''MODEL_WEIGHTS'' = Some YNull"
    using train_rewrite_keeps_weights [OF Inr] assms by simp
  show ?thesis
    unfolding train_step_rewritten [OF Inr]
  proof (rule seq_saved)
    fix w show "saved_models (snd (train_and_report ext args cfg w)) = saved_models w"
      by (rule train_and_report_saved)
  next
    fix model w show "saved_models (snd (save_weights cfg model w)) = saved_models w"
      using n by (simp add: save_weights_null)
  qed
qed

text \<open>
  Claim C4. If \<open>PATHS.MODEL_WEIGHTS\<close> is null in the loaded configuration, no run of the
  training step calls \<open>save_model\<close>, however it ends. When training and reporting have
  completed, they have not called \<open>save_model\<close>, and the last two lines call it
  exactly when \<open>PATHS.MODEL_WEIGHTS\<close> has a value other than null: once, with
  the trained model and the value of \<open>PATHS.MODEL_TO_LOAD\<close>, and the script ends
  normally; with null the script ends without the call.
\<close>

theorem save_model_iff_weights_not_null:
  "(path_entry cfg0 ''MODEL_WEIGHTS'' = Some YNull \<longrightarrow>
      saved_models (snd (train_step ext args cfg0 w)) = saved_models w) \<and>
   (train_rewrite args cfg0 = Inr cfg \<and> train_and_report ext args cfg w = (Inr model, w1) \<longrightarrow>
      saved_models w1 = saved_models w \<and>
      (saved_models (snd (train_step ext args cfg0 w)) \<noteq> saved_models w \<longleftrightarrow>
         (\<exists>v. path_entry cfg ''MODEL_WEIGHTS'' = Some v \<and> v \<noteq> YNull)) \<and>
      (path_entry cfg ''MODEL_WEIGHTS'' = Some YNull \<longrightarrow>
         train_step ext args cfg0 w = (Inr (), w1)) \<and>
      (\<forall>v. path_entry cfg ''MODEL_WEIGHTS'' = Some v \<and> v \<noteq> YNull \<longrightarrow>
         (\<exists>dest. path_entry cfg ''MODEL_TO_LOAD'' = Some dest \<and>
            train_step ext args cfg0 w = (Inr (), save_model model dest w1) \<and>
            saved_models (snd (train_step ext args cfg0 w)) = saved_models w @ [(model, dest)])))"
proof (intro conjI impI)
  assume "path_entry cfg0 ''MODEL_WEIGHTS'' = Some YNull"
  then show "saved_models (snd (train_step ext args cfg0 w)) = saved_models w"
    by (rule train_step_null_saved)
next
  assume a: "train_rewrite args cfg0 = Inr cfg \<and> train_and_report ext args cfg w = (Inr model, w1)"
  then have r: "train_rewrite args cfg0 = Inr cfg"
    and t: "train_and_report ext args cfg w = (Inr model, w1)" by simp_all
  show s1: "saved_models w1 = saved_models w"
    using train_and_report_saved [of ext args cfg w] t by simp
  have step: "train_step ext args cfg0 w = save_weights cfg model w1"
    using r t by (rule train_step_reached)
  obtain d v0 where mtl: "path_entry cfg ''MODEL_TO_LOAD'' = Some (YStr (d @ ''/'' @ file_name v0))"
    using train_rewrite_model_to_load [OF r] by blast
  show "saved_models (snd (train_step ext args cfg0 w)) \<noteq> saved_models w \<longleftrightarrow>
         (\<exists>v. path_entry cfg ''MODEL_WEIGHTS'' = Some v \<and> v \<noteq> YNull)"
  proof (cases "path_entry cfg ''MODEL_WEIGHTS''")
    case None
    then show ?thesis using save_weights_saved_null [of cfg model w1] step s1 by simp
  next
    case (Some v)
    show ?thesis
    proof (cases "v = YNull")
      case True
      then show ?thesis using Some save_weights_saved_null [of cfg model w1] step s1 by simp
    next
      case False
      then show ?thesis
        using Some save_weights_set [OF Some False mtl, of model w1] step s1
        by (simp add: save_model_def)
    qed
  qed
  show "train_step ext args cfg0 w = (Inr (), w1)"
    if "path_entry cfg ''MODEL_WEIGHTS'' = Some YNull"
    using that step by (simp add: save_weights_null)
  show "\<forall>v. path_entry cfg ''MODEL_WEIGHTS'' = Some v \<and> v \<noteq> YNull \<longrightarrow>
         (\<exists>dest. path_entry cfg ''MODEL_TO_LOAD'' = Some dest \<and>
            train_step ext args cfg0 w = (Inr (), save_model model dest w1) \<and>
            saved_models (snd (train_step ext args cfg0 w)) = saved_models w @ [(model, dest)])"
  proof (intro allI impI)
    fix v assume v: "path_entry cfg ''MODEL_WEIGHTS'' = Some v \<and> v \<noteq> YNull"
    then have v1: "path_entry cfg ''MODEL_WEIGHTS'' = Some v" and v2: "v \<noteq> YNull"
      by simp_all
    have "save_weights cfg model w1 =
        (Inr (), save_model model (YStr (d @ ''/'' @ file_name v0)) w1)"
      using v1 v2 mtl by (rule save_weights_set)
    then show "\<exists>dest. path_entry cfg ''MODEL_TO_LOAD'' = Some dest \<and>
            train_step ext args cfg0 w = (Inr (), save_model model dest w1) \<and>
            saved_models (snd (train_step ext args cfg0 w)) = saved_models w @ [(model, dest)]"
      using mtl step s1 by (simp add: save_model_def)
  qed
qed

text \<open>
  Claim C9. The training step's rewrite leaves \<open>PATHS.MODEL_WEIGHTS\<close> as it was loaded,
  and makes \<open>PATHS.MODEL_TO_LOAD\<close> the \<open>trainoutputdir\<close> argument, a \<open>'/'\<close> and the
  file name of its loaded value. So once training and reporting have completed, the end of
  the script is fixed by the loaded \<open>MODEL_WEIGHTS\<close> alone: null ends it without a call
  of \<open>save_model\<close>, a missing key raises \<open>KeyError\<close>, and any other value saves the
  model to that rewritten path.
\<close>

theorem persistence_guard_is_static:
  assumes "train_rewrite args cfg0 = Inr cfg"
    and "train_and_report ext args cfg w = (Inr model, w1)"
  shows "path_entry cfg ''MODEL_WEIGHTS'' = path_entry cfg0 ''MODEL_WEIGHTS'' \<and>
         (\<exists>d v. trainoutputdir args = Some d \<and>
            path_entry cfg0 ''MODEL_TO_LOAD'' = Some (YStr v) \<and>
            path_entry cfg ''MODEL_TO_LOAD'' = Some (YStr (d @ ''/'' @ file_name v)) \<and>
            train_step ext args cfg0 w =
              (if path_entry cfg0 ''MODEL_WEIGHTS'' = None
               then (Inl (KeyError ''MODEL_WEIGHTS''), w1)
               else if path_entry cfg0 ''MODEL_WEIGHTS'' = Some YNull
               then (Inr (), w1)
               else (Inr (), save_model model (YStr (d @ ''/'' @ file_name v)) w1)))"
proof -
  have k: "path_entry cfg ''MODEL_WEIGHTS'' = path_entry cfg0 ''MODEL_WEIGHTS''"
    using assms(1) by (rule train_rewrite_keeps_weights)
  obtain d v where dv: "trainoutputdir args = Some d"
    "path_entry cfg0 ''MODEL_TO_LOAD'' = Some (YStr v)"
    "path_entry cfg ''MODEL_TO_LOAD'' = Some (YStr (d @ ''/'' @ file_name v))"
    using train_rewrite_model_to_load [OF assms(1)] by blast
  have step: "train_step ext args cfg0 w = save_weights cfg model w1"
    using assms by (rule train_step_reached)
  have "train_step ext args cfg0 w =
              (if path_entry cfg0 ''MODEL_WEIGHTS'' = None
               then (Inl (KeyError ''MODEL_WEIGHTS''), w1)
               else if path_entry cfg0 ''MODEL_WEIGHTS'' = Some YNull
               then (Inr (), w1)
               else (Inr (), save_model model (YStr (d @ ''/'' @ file_name v)) w1))"
  proof (cases "path_entry cfg0 ''MODEL_WEIGHTS''")
    case None
    then have n: "path_entry cfg ''MODEL_WEIGHTS'' = None" using k by simp
    obtain doc pm where c: "cfg = YMap doc" "doc ''PATHS'' = Some (YMap pm)"
      using dv(3) unfolding path_entry_iff by blast
    then have "pm ''MODEL_WEIGHTS'' = None"
      using n by (cases "pm ''MODEL_WEIGHTS''") (simp_all add: path_entry_def)
    then have "cfg_item cfg ''PATHS'' ''MODEL_WEIGHTS'' = Inl (KeyError ''MODEL_WEIGHTS'')"
      using c by (simp add: cfg_item_def and_then_def)
    then have "save_weights cfg model w1 = (Inl (KeyError ''MODEL_WEIGHTS''), w1)"
      by (simp add: save_weights_def seq_def pure_step_def)
    then show ?thesis using None step by simp
  next
    case (Some x)
    then have s: "path_entry cfg ''MODEL_WEIGHTS'' = Some x" using k by simp
    show ?thesis
    proof (cases "x = YNull")
      case True
      then show ?thesis using Some s step by (simp add: save_weights_null)
    next
      case False
      then show ?thesis using Some step save_weights_set [OF s False dv(3), of model w1] by simp
    qed
  qed
  then show ?thesis using k dv by blast
qed

lemma train_and_report_returns:
  assumes "provision (trainoutputdir args) (files w) = (Inr (), fs')"
    and "load_dataset ext cfg = Inr data"
    and "cfg_item cfg ''TRAIN'' ''PATIENCE'' = Inr patience"
    and "cfg_item cfg ''PATHS'' ''LOGS'' = Inr logs"
    and "multi_train ext cfg data patience logs = (calls, Inr (model, test_metrics, date))"
    and "data ''X_test'' = Some x" and "data ''Y_test'' = Some y"
    and "cfg_item cfg ''TRAIN'' ''BATCH_SIZE'' = Inr batch_size"
    and "predict ext model x batch_size = Inr preds"
    and "plot_roc ext ''Test set'' y preds = Inr roc"
    and "plot_confusion_matrix ext y preds = Inr cm"
  shows "fst (train_and_report ext args cfg w) = Inr model"
  using assms
  by (simp add: train_and_report_def seq_def pure_step_def effect_def training_def
      provision_step_def data_item_def)

lemma train_rewrite_section:
  assumes "train_rewrite args cfg = Inr cfg'" and "s \<noteq> ''PATHS''"
  shows "getitem cfg' s = getitem cfg s"
proof -
  obtain c1 where c1: "rewrite_all (train_paths args) cfg = Inr c1"
    "set_logs (traininglogsdir args) c1 = Inr cfg'"
    using train_rewrite_D [OF assms(1)] by blast
  show ?thesis
    using rewrite_all_section [OF c1(1) assms(2)] set_logs_section [OF c1(2) assms(2)] by simp
qed

lemma provision_train_example:
  "provision (Some ''/mnt/train'') empty_fs =
     (Inr (), snd (provision (Some ''/mnt/train'') empty_fs))"
proof -
  have "fst (provision (Some ''/mnt/train'') empty_fs) = Inr ()" by code_simp
  then show ?thesis by (cases "provision (Some ''/mnt/train'') empty_fs") simp
qed

lemma example_report:
  assumes "train_rewrite example_train_args cfg0 = Inr cfg"
    and "getitem cfg0 ''TRAIN'' =
           Inr (YMap (map_of [(''PATIENCE'', YInt 15), (''BATCH_SIZE'', YInt 1024)]))"
  shows "fst (train_and_report example_ext example_train_args cfg example_world) = Inr 7"
proof (rule train_and_report_returns)
  show "provision (trainoutputdir example_train_args) (files example_world) =
      (Inr (), snd (provision (Some ''/mnt/train'') empty_fs))"
    using provision_train_example by (simp add: example_train_args_def example_world_def)
  show "load_dataset example_ext cfg = Inr [''X_test'' \<mapsto> (), ''Y_test'' \<mapsto> ()]"
    by (simp add: example_ext_def)
  have t: "getitem cfg ''TRAIN'' =
      Inr (YMap (map_of [(''PATIENCE'', YInt 15), (''BATCH_SIZE'', YInt 1024)]))"
    using train_rewrite_section [OF assms(1), of "''TRAIN''"] assms(2) by simp
  show "cfg_item cfg ''TRAIN'' ''PATIENCE'' = Inr (YInt 15)"
    by (simp add: cfg_item_def and_then_def t)
  show "cfg_item cfg ''TRAIN'' ''BATCH_SIZE'' = Inr (YInt 1024)"
    by (simp add: cfg_item_def and_then_def t)
  show "cfg_item cfg ''PATHS'' ''LOGS'' = Inr (arg_value (traininglogsdir example_train_args))"
    using train_rewrite_logs [OF assms(1)] by (simp only: cfg_item_paths)
  show "multi_train example_ext cfg [''X_test'' \<mapsto> (), ''Y_test'' \<mapsto> ()] (YInt 15)
      (arg_value (traininglogsdir example_train_args)) =
      ([(0, [(''loss'', 5)]), (1, [(''loss'', 4)])], Inr (7, [(''loss'', 4)], 0))"
    by (simp add: example_ext_def)
  show "[''X_test'' \<mapsto> (), ''Y_test'' \<mapsto> ()] ''X_test'' = Some ()" by simp
  show "[''X_test'' \<mapsto> (), ''Y_test'' \<mapsto> ()] ''Y_test'' = Some ()" by simp
  show "predict example_ext 7 () (YInt 1024) = Inr ()" by (simp add: example_ext_def)
  show "plot_roc example_ext ''Test set'' () () = Inr ()" by (simp add: example_ext_def)
  show "plot_confusion_matrix example_ext () () = Inr ()" by (simp add: example_ext_def)
qed

lemma example_train_section:
  "getitem example_cfg ''TRAIN'' =
     Inr (YMap (map_of [(''PATIENCE'', YInt 15), (''BATCH_SIZE'', YInt 1024)]))"
  by (simp add: example_cfg_def)

lemma example_weights:
  "path_entry example_cfg ''MODEL_WEIGHTS'' = Some (YStr ''results/models/'')"
  by (simp add: example_entry example_paths_def)

lemma example_model_to_load:
  "path_entry example_cfg ''MODEL_TO_LOAD'' = Some (YStr ''results/models/model.h5'')"
  by (simp add: example_entry example_paths_def)

lemma example_model_file: "file_name ''results/models/model.h5'' = ''model.h5''"
  by (simp add: file_name_def)

lemma null_weights: "path_entry null_weights_cfg ''MODEL_WEIGHTS'' = Some YNull"
  by (simp add: path_entry_def null_weights_cfg_def)

text \<open>
  The theorem on two runs with the example collaborators: with \<open>MODEL_WEIGHTS: null\<close>
  nothing is saved; with the example configuration the step ends normally and the model is
  saved once, to \<open>/mnt/train/model.h5\<close>.
\<close>

theorem save_model_iff_weights_not_null_witness:
  "saved_models (snd (train_step example_ext example_train_args null_weights_cfg example_world))
     = [] \<and>
   fst (train_step example_ext example_train_args example_cfg example_world) = Inr () \<and>
   saved_models (snd (train_step example_ext example_train_args example_cfg example_world))
     = [(7, YStr ''/mnt/train/model.h5'')]"
proof -
  obtain c2 where c2: "train_rewrite example_train_args example_cfg = Inr c2"
    using train_example_ok by blast
  have "fst (train_and_report example_ext example_train_args c2 example_world) = Inr 7"
    using c2 example_train_section by (rule example_report)
  then obtain w1 where w1:
    "train_and_report example_ext example_train_args c2 example_world = (Inr 7, w1)"
    by (cases "train_and_report example_ext example_train_args c2 example_world") simp
  have mw: "path_entry c2 ''MODEL_WEIGHTS'' = Some (YStr ''results/models/'')"
    using train_rewrite_keeps_weights [OF c2] example_weights by simp
  have mtl: "path_entry c2 ''MODEL_TO_LOAD'' = Some (YStr ''/mnt/train/model.h5'')"
    using train_rewrite_model_to_load [OF c2] example_model_to_load example_model_file
    by (auto simp: example_train_args_def)
  note t1 = save_model_iff_weights_not_null
    [of null_weights_cfg example_ext example_train_args example_world]
  note t2 = save_model_iff_weights_not_null
    [of example_cfg example_ext example_train_args example_world c2 7 w1]
  have "saved_models
      (snd (train_step example_ext example_train_args null_weights_cfg example_world)) = []"
    using t1 null_weights by (simp add: example_world_def)
  moreover have "\<exists>dest. path_entry c2 ''MODEL_TO_LOAD'' = Some dest \<and>
      train_step example_ext example_train_args example_cfg example_world =
        (Inr (), save_model 7 dest w1) \<and>
      saved_models (snd (train_step example_ext example_train_args example_cfg example_world)) =
        saved_models example_world @ [(7, dest)]"
    using t2 c2 w1 mw by blast
  ultimately show ?thesis using mtl by (auto simp: example_world_def)
qed

text \<open>
  The theorem on the example run: the guard reads the loaded \<open>results/models/\<close>, and
  the model goes to \<open>/mnt/train/model.h5\<close>.
\<close>

theorem persistence_guard_is_static_witness:
  "rewritten_entry (train_rewrite example_train_args example_cfg) ''MODEL_WEIGHTS''
     = Some (YStr ''results/models/'') \<and>
   rewritten_entry (train_rewrite example_train_args example_cfg) ''MODEL_TO_LOAD''
     = Some (YStr ''/mnt/train/model.h5'') \<and>
   map snd (saved_models
      (snd (train_step example_ext example_train_args example_cfg example_world)))
     = [YStr ''/mnt/train/model.h5'']"
proof -
  obtain c2 where c2: "train_rewrite example_train_args example_cfg = Inr c2"
    using train_example_ok by blast
  have "fst (train_and_report example_ext example_train_args c2 example_world) = Inr 7"
    using c2 example_train_section by (rule example_report)
  then obtain w1 where w1:
    "train_and_report example_ext example_train_args c2 example_world = (Inr 7, w1)"
    by (cases "train_and_report example_ext example_train_args c2 example_world") simp
  have s: "saved_models w1 = []"
    using train_and_report_saved [of example_ext example_train_args c2 example_world] w1
    by (simp add: example_world_def)
  note t = persistence_guard_is_static [OF c2 w1]
  have mw: "path_entry c2 ''MODEL_WEIGHTS'' = Some (YStr ''results/models/'')"
    using t example_weights by simp
  obtain d v where dv: "trainoutputdir example_train_args = Some d"
    "path_entry example_cfg ''MODEL_TO_LOAD'' = Some (YStr v)"
    "path_entry c2 ''MODEL_TO_LOAD'' = Some (YStr (d @ ''/'' @ file_name v))"
    "train_step example_ext example_train_args example_cfg example_world =
       (Inr (), save_model 7 (YStr (d @ ''/'' @ file_name v)) w1)"
    using t example_weights by auto
  have "d = ''/mnt/train''" using dv(1) by (simp add: example_train_args_def)
  moreover have "v = ''results/models/model.h5''" using dv(2) example_model_to_load by simp
  ultimately have p: "d @ ''/'' @ file_name v = ''/mnt/train/model.h5''"
    using example_model_file by simp
  show ?thesis
    using c2 mw dv(3,4) s unfolding p by (simp add: rewritten_entry_def save_model_def)
qed

section \<open>The steps as a whole\<close>

text \<open>
  The preprocessing step hands the rewritten configuration to \<open>preprocess\<close>, after the
  output directory has been provisioned; the training step saves, or not, after training
  and reporting.
\<close>

lemma preprocess_step_runs:
  assumes "preprocess_rewrite args cfg0 = Inr cfg"
    and "provision (preprocess_args.preprocessedoutputdir args) fs = (Inr (), fs')"
  shows "preprocess_step preprocess args cfg0 fs = preprocess cfg None True True True False fs'"
  using assms by (simp add: preprocess_step_def seq_def pure_step_def)

lemma preprocess_step_raises:
  assumes "preprocess_rewrite args cfg0 = Inl e"
  shows "preprocess_step preprocess args cfg0 fs = (Inl e, fs)"
  using assms by (simp add: preprocess_step_def seq_def pure_step_def)

lemma train_step_raises:
  assumes "train_rewrite args cfg0 = Inl e"
  shows "train_step ext args cfg0 w = (Inl e, w)"
  using assms by (simp add: train_step_def seq_def pure_step_def)

end
